theory Spec2Isabelle
  imports Main "HOL-Library.Sublist" "HOL-Library.Multiset"
begin

section \<open>JavaScript strings\<close>

text \<open>
  Strings are lists of characters, a character being a code unit below 256. \<open>is_space\<close>
  holds of the white space and line terminators that \<open>String.prototype.trim\<close> and
  \<open>parseInt\<close> skip; among these code units they are the tab, the line feed, the vertical
  tab, the form feed, the carriage return, the space and the no-break space U+00A0.
  \<open>str_includes s t\<close> is \<open>s.includes(t)\<close>, \<open>show_nat\<close> is the decimal rendering of a
  number inside a template literal, \<open>show_int\<close> the decimal rendering of an integer, and
  \<open>or_else\<close> is \<open>s || d\<close> on a string that may be undefined.
\<close>

definition is_space :: "char \<Rightarrow> bool" where
  "is_space c =
     (c \<in> set [CHR 0x09, CHR 0x0A, CHR 0x0B, CHR 0x0C, CHR 0x0D, CHR 0x20, CHR 0xA0])"

definition trim :: "string \<Rightarrow> string" where
  "trim s = rev (dropWhile is_space (rev (dropWhile is_space s)))"

fun str_includes :: "string \<Rightarrow> string \<Rightarrow> bool" where
  "str_includes [] t = (t = [])"
| "str_includes (c # s) t = (prefix t (c # s) \<or> str_includes s t)"

fun show_nat :: "nat \<Rightarrow> string" where
  "show_nat n =
     (if n < 10 then [''0123456789'' ! n]
      else show_nat (n div 10) @ [''0123456789'' ! (n mod 10)])"

declare show_nat.simps [simp del]

definition show_int :: "int \<Rightarrow> string" where
  "show_int i = (if i < 0 then CHR ''-'' # show_nat (nat (- i)) else show_nat (nat i))"

definition or_else :: "string option \<Rightarrow> string \<Rightarrow> string" where
  "or_else v d = (case v of None \<Rightarrow> d | Some s \<Rightarrow> if s = [] then d else s)"

section \<open>The client generation controller (frontend/src/components/Studio.tsx)\<close>

text \<open>
  The component's React state. A render of the component binds these values as constants;
  every function the render creates (\<open>handleGenerate\<close>, \<open>handleAbort\<close>, the
  \<open>setTimeout\<close> callback) closes over the values of that render. The functions below
  therefore take the render they belong to as their first argument and the current state
  of the page as their second: a state setter writes the current state, a plain read of
  \<open>retryCount\<close> or \<open>abortController\<close> reads the render.
\<close>

record studio =
  selectedFile :: bool
  prompt :: string
  isGenerating :: bool
  error :: string
  retryCount :: nat
  abortController :: "nat option"

text \<open>What a rejected \<open>apiService.createGeneration\<close> carries, as far as the handler reads it.\<close>

record rejection =
  err_name :: string
  response_message :: "string option"

datatype outcome = Resolved | Rejected rejection

text \<open>
  The page: the React state, the abort controllers created so far (numbered in order of
  creation) and those whose signal is aborted, the create-generation calls that are in
  flight (each with its controller and the render whose \<open>handleGenerate\<close> awaits it),
  the number of create-generation calls issued, the pending retry timers (each the
  render whose callback it holds) and the number of history reloads.
\<close>

record page =
  ui :: studio
  aborted :: "nat list"
  controllers :: nat
  inflight :: "(nat \<times> studio) list"
  calls :: nat
  timers :: "studio list"
  reloads :: nat

definition MAX_RETRIES :: nat where
  "MAX_RETRIES = 3"

text \<open>\<open>handleGenerate\<close>, lines 109 to 127: from the call to the \<open>await\<close> of the request.\<close>

definition handleGenerate :: "studio \<Rightarrow> page \<Rightarrow> page" where
  "handleGenerate r w =
     (if \<not> selectedFile r \<or> trim (prompt r) = []
      then w\<lparr>ui := (ui w)\<lparr>error := ''Please select an image and enter a prompt''\<rparr>\<rparr>
      else
        let controller = controllers w
        in w\<lparr>ui := (ui w)\<lparr>isGenerating := True, error := [],
                              abortController := Some controller\<rparr>,
             controllers := Suc controller,
             inflight := inflight w @ [(controller, r)],
             calls := Suc (calls w)\<rparr>)"

text \<open>The \<open>finally\<close> block, lines 156 to 159.\<close>

definition finally_block :: "page \<Rightarrow> page" where
  "finally_block w = w\<lparr>ui := (ui w)\<lparr>isGenerating := False, abortController := None\<rparr>\<rparr>"

text \<open>
  \<open>handleGenerate\<close>, lines 128 to 159: what runs when the awaited request settles. The
  retry branch reads \<open>retryCount\<close> of the render \<open>r\<close> and leaves a timer holding \<open>r\<close>.
\<close>

definition handleGenerate_settled :: "studio \<Rightarrow> outcome \<Rightarrow> page \<Rightarrow> page" where
  "handleGenerate_settled r out w =
     (case out of
        Resolved \<Rightarrow>
          finally_block (w\<lparr>reloads := Suc (reloads w), ui := (ui w)\<lparr>retryCount := 0\<rparr>\<rparr>)
      | Rejected err \<Rightarrow>
          if err_name err = ''AbortError'' then finally_block w
          else
            let errorMessage = or_else (response_message err) ''Generation failed''
            in if str_includes errorMessage ''Model overloaded'' \<and> retryCount r < MAX_RETRIES
               then finally_block
                      (w\<lparr>ui := (ui w)\<lparr>error := errorMessage @ ''. Retrying... (''
                                           @ show_nat (retryCount r + 1) @ ''/''
                                           @ show_nat MAX_RETRIES @ '')'',
                                         retryCount := retryCount (ui w) + 1\<rparr>,
                          timers := timers w @ [r]\<rparr>)
               else finally_block
                      (w\<lparr>ui := (ui w)\<lparr>error := errorMessage, retryCount := 0\<rparr>\<rparr>))"

text \<open>
  The \<open>setTimeout\<close> callback, lines 146 to 150: \<open>abortController?.signal.aborted\<close> is
  undefined when the render's \<open>abortController\<close> is null.
\<close>

definition retry_callback :: "studio \<Rightarrow> page \<Rightarrow> page" where
  "retry_callback r w =
     (if \<not> (case abortController r of None \<Rightarrow> False | Some c \<Rightarrow> c \<in> set (aborted w))
      then handleGenerate r w else w)"

text \<open>\<open>handleAbort\<close>, lines 162 to 170.\<close>

definition handleAbort :: "studio \<Rightarrow> page \<Rightarrow> page" where
  "handleAbort r w =
     (let w1 = (case abortController r of
                  Some c \<Rightarrow> w\<lparr>aborted := c # aborted w, ui := (ui w)\<lparr>abortController := None\<rparr>\<rparr>
                | None \<Rightarrow> w)
      in w1\<lparr>ui := (ui w1)\<lparr>isGenerating := False, retryCount := 0, error := []\<rparr>\<rparr>)"

text \<open>
  What can happen to the page. The user clicks a button of the latest render: Generate is
  disabled as line 417 says, Stop is rendered only while \<open>isGenerating\<close> (line 433). A
  request in flight settles; the oldest pending timer fires (all timers wait 2000 ms).
\<close>

datatype event = ClickGenerate | ClickStop | Settle nat outcome | Timer

fun take_request :: "nat \<Rightarrow> (nat \<times> studio) list \<Rightarrow> (studio \<times> (nat \<times> studio) list) option" where
  "take_request c [] = None"
| "take_request c ((c', r) # rest) =
     (if c = c' then Some (r, rest)
      else (case take_request c rest of
              None \<Rightarrow> None
            | Some (r', rest') \<Rightarrow> Some (r', (c', r) # rest')))"

fun step :: "event \<Rightarrow> page \<Rightarrow> page" where
  "step ClickGenerate w =
     (if \<not> selectedFile (ui w) \<or> trim (prompt (ui w)) = [] \<or> isGenerating (ui w) then w
      else handleGenerate (ui w) w)"
| "step ClickStop w = (if isGenerating (ui w) then handleAbort (ui w) w else w)"
| "step (Settle c out) w =
     (case take_request c (inflight w) of
        None \<Rightarrow> w
      | Some (r, rest) \<Rightarrow> handleGenerate_settled r out (w\<lparr>inflight := rest\<rparr>))"
| "step Timer w =
     (case timers w of
        [] \<Rightarrow> w
      | r # rest \<Rightarrow> retry_callback r (w\<lparr>timers := rest\<rparr>))"

definition run :: "event list \<Rightarrow> page \<Rightarrow> page" where
  "run evs w = foldl (\<lambda>w e. step e w) w evs"

text \<open>The idle page with an image attached and a prompt typed.\<close>

definition ready :: page where
  "ready = \<lparr>ui = \<lparr>selectedFile = True, prompt = ''Test prompt'', isGenerating = False,
                    error = [], retryCount = 0, abortController = None\<rparr>,
             aborted = [], controllers = 0, inflight = [], calls = 0, timers = [],
             reloads = 0\<rparr>"

text \<open>The rejection of an overloaded server, and the network that answers every call with it.\<close>

definition overload_rejection :: outcome where
  "overload_rejection = Rejected \<lparr>err_name = ''AxiosError'', response_message = Some ''Model overloaded''\<rparr>"

fun overload_rounds :: "nat \<Rightarrow> event list" where
  "overload_rounds 0 = []"
| "overload_rounds (Suc n) = overload_rounds n @ [Settle n overload_rejection, Timer]"

section \<open>Errors and responses (backend/src/middleware/errorHandler.ts)\<close>

text \<open>
  The errors the backend throws. \<open>AppError\<close> carries its message, its status code and the
  source line of the \<open>throw\<close> (what \<open>Error.captureStackTrace\<close> records first); \<open>Error\<close> is
  any other error that is not a JWT error: its name, its message and the source line that
  built it (0 for an error built outside the repository, as SQLite's are); \<open>JwtError\<close> is an
  instance of \<open>jwt.JsonWebTokenError\<close> or of one of its subclasses, with its name and
  message; \<open>ZodError\<close> carries the messages of its issues, in order.
\<close>

datatype js_error =
    AppError string nat nat
  | Error string string nat
  | JwtError string string
  | ZodError "string list"

text \<open>
  The process environment and the libraries the backend calls: \<open>NODE_ENV\<close> and
  \<open>JWT_SECRET\<close> of \<open>process.env\<close>; the text zod gives a \<open>ZodError\<close> as its message (the
  JSON of its issues); zod's email format; \<open>bcrypt.compare\<close>; \<open>path.join\<close>,
  \<open>path.dirname\<close> and \<open>path.basename\<close>.
\<close>

record env =
  NODE_ENV :: string
  JWT_SECRET :: "string option"
  zod_message :: "string list \<Rightarrow> string"
  is_email :: "string \<Rightarrow> bool"
  bcrypt_compare :: "string \<Rightarrow> string \<Rightarrow> bool"
  path_join :: "string \<Rightarrow> string \<Rightarrow> string"
  path_dirname :: "string \<Rightarrow> string"
  path_basename :: "string \<Rightarrow> string"

definition err_name_of :: "js_error \<Rightarrow> string" where
  "err_name_of e =
     (case e of AppError m c l \<Rightarrow> ''Error'' | Error n m l \<Rightarrow> n | JwtError n m \<Rightarrow> n
      | ZodError is \<Rightarrow> ''ZodError'')"

definition err_message :: "env \<Rightarrow> js_error \<Rightarrow> string" where
  "err_message env e =
     (case e of AppError m c l \<Rightarrow> m | Error n m l \<Rightarrow> m | JwtError n m \<Rightarrow> m
      | ZodError is \<Rightarrow> zod_message env is)"

definition err_statusCode :: "js_error \<Rightarrow> nat option" where
  "err_statusCode e = (case e of AppError m c l \<Rightarrow> Some c | _ \<Rightarrow> None)"

text \<open>\<open>err.stack\<close>: the message and the place the error was built at.\<close>

definition err_stack :: "env \<Rightarrow> js_error \<Rightarrow> string \<times> nat" where
  "err_stack env e =
     (case e of AppError m c l \<Rightarrow> (m, l) | Error n m l \<Rightarrow> (m, l) | JwtError n m \<Rightarrow> (m, 0)
      | ZodError is \<Rightarrow> (zod_message env is, 0))"

text \<open>A row of the table \<open>generations\<close> (backend/src/models/database.ts, interface Generation).\<close>

datatype gen_status = Processing | Completed | Failed

record generation =
  gen_id :: string
  user_id :: nat
  gen_prompt :: string
  gen_style :: string
  image_path :: "string option"
  result_image_path :: "string option"
  status :: gen_status
  created_at :: nat

text \<open>What the controllers send for a generation, a user and a token.\<close>

record gen_summary =
  sum_id :: string
  sum_prompt :: string
  sum_style :: string
  sum_status :: gen_status
  sum_created_at :: nat

record gen_view =
  view_id :: string
  view_prompt :: string
  view_style :: string
  view_status :: gen_status
  imageUrl :: "string option"
  resultImageUrl :: "string option"
  view_created_at :: nat

record user_view =
  view_uid :: nat
  view_email :: string
  view_registered_at :: nat

text \<open>
  A signed token: the user id and email it encodes, the time it expires at and the key it
  was signed with; or a string that is no token at all.
\<close>

datatype token = Token nat string nat string | Garbled string

datatype res_data =
    NoData
  | Started gen_summary
  | Generations "gen_view list" nat
  | OneGeneration gen_view
  | UserAndToken user_view token
  | UserOnly user_view

text \<open>
  A JSON response: the status, \<open>success\<close>, \<open>message\<close> (absent in some), \<open>data\<close>, and the
  \<open>stack\<close> an error response carries in development.
\<close>

record response =
  res_status :: nat
  res_success :: bool
  res_message :: "string option"
  res_data :: res_data
  res_stack :: "(string \<times> nat) option"

text \<open>\<open>errorHandler\<close>, lines 21 to 86; each \<open>if\<close> of the source rewrites what the ones before set.\<close>

definition errorHandler :: "env \<Rightarrow> js_error \<Rightarrow> response" where
  "errorHandler env err =
     (let statusCode = (case err_statusCode err of
                          None \<Rightarrow> 500 | Some c \<Rightarrow> if c = 0 then 500 else c);
          message = err_message env err;
          (statusCode, message) =
            (if err_name_of err = ''ZodError''
             then (400, case err of ZodError (m # ms) \<Rightarrow> m | _ \<Rightarrow> ''Validation error'')
             else (statusCode, message));
          (statusCode, message) =
            (if str_includes (err_message env err) ''UNIQUE constraint failed: users.email''
             then (400, ''User with this email already exists'')
             else (statusCode, message));
          (statusCode, message) =
            (if str_includes (err_message env err) ''UNIQUE constraint failed: generations.id''
             then (500, ''Generation ID conflict'')
             else (statusCode, message));
          statusCode =
            (if str_includes (err_message env err) ''not found''
                \<or> str_includes (err_message env err) ''Not found''
             then 404 else statusCode);
          (statusCode, message) =
            (if err_name_of err = ''JsonWebTokenError'' then (401, ''Invalid token'')
             else (statusCode, message));
          (statusCode, message) =
            (if err_name_of err = ''TokenExpiredError'' then (401, ''Token expired'')
             else (statusCode, message))
      in \<lparr>res_status = statusCode, res_success = False,
          res_message = Some (if statusCode = 500 then ''Internal server error'' else message),
          res_data = NoData,
          res_stack = (if NODE_ENV env = ''development'' then Some (err_stack env err) else None)\<rparr>)"

section \<open>The store (backend/src/models/database.ts, User.ts, Generation.ts)\<close>

record user =
  uid :: nat
  email :: string
  password :: string
  registered_at :: nat

text \<open>
  The database: the rows of its two tables in the order of their insertion, and whether
  the connection is closed, in which case every statement fails.
\<close>

record db =
  users :: "user list"
  generations :: "generation list"
  closed :: bool

definition db_closed_error :: js_error where
  "db_closed_error = Error ''Error'' ''SQLITE_MISUSE: Database is closed'' 0"

text \<open>\<open>x || null\<close> on a string that may be undefined.\<close>

definition or_null :: "string option \<Rightarrow> string option" where
  "or_null v = (case v of None \<Rightarrow> None | Some s \<Rightarrow> if s = [] then None else Some s)"

text \<open>\<open>UserModel.findByEmail\<close> and \<open>UserModel.findById\<close>.\<close>

definition User_findByEmail :: "db \<Rightarrow> string \<Rightarrow> js_error + user option" where
  "User_findByEmail d e =
     (if closed d then Inl db_closed_error else Inr (find (\<lambda>u. email u = e) (users d)))"

definition User_findById :: "db \<Rightarrow> nat \<Rightarrow> js_error + user" where
  "User_findById d i =
     (if closed d then Inl db_closed_error
      else case find (\<lambda>u. uid u = i) (users d) of
             None \<Rightarrow> Inl (Error ''Error'' ''User not found'' 69)
           | Some u \<Rightarrow> Inr u)"

text \<open>\<open>GenerationModel.findById\<close>.\<close>

definition Generation_findById :: "db \<Rightarrow> string \<Rightarrow> js_error + generation" where
  "Generation_findById d i =
     (if closed d then Inl db_closed_error
      else case find (\<lambda>g. gen_id g = i) (generations d) of
             None \<Rightarrow> Inl (Error ''Error'' ''Generation not found'' 149)
           | Some g \<Rightarrow> Inr g)"

text \<open>
  \<open>GenerationModel.create\<close>: the INSERT sets the status to processing and leaves
  \<open>result_image_path\<close> NULL; \<open>id\<close> is the primary key; \<open>created_at\<close> defaults to the time
  of the insertion.
\<close>

record create_data =
  cd_id :: string
  cd_user_id :: nat
  cd_prompt :: string
  cd_style :: string
  cd_image_path :: "string option"

definition Generation_create :: "nat \<Rightarrow> db \<Rightarrow> create_data \<Rightarrow> (js_error + generation) \<times> db" where
  "Generation_create now d generationData =
     (if closed d then (Inl db_closed_error, d)
      else if \<exists>g \<in> set (generations d). gen_id g = cd_id generationData
      then (Inl (Error ''Error'' ''SQLITE_CONSTRAINT: UNIQUE constraint failed: generations.id'' 0), d)
      else
        let row = \<lparr>gen_id = cd_id generationData, user_id = cd_user_id generationData,
                   gen_prompt = cd_prompt generationData, gen_style = cd_style generationData,
                   image_path = or_null (cd_image_path generationData),
                   result_image_path = None, status = Processing, created_at = now\<rparr>;
            d' = d\<lparr>generations := generations d @ [row]\<rparr>
        in (Generation_findById d' (cd_id generationData), d'))"

text \<open>
  \<open>GenerationModel.findByUserId\<close>: ORDER BY created_at DESC LIMIT ?, where a negative
  limit means none.
\<close>

definition Generation_findByUserId :: "db \<Rightarrow> nat \<Rightarrow> int \<Rightarrow> js_error + generation list" where
  "Generation_findByUserId d userId limit =
     (if closed d then Inl db_closed_error
      else
        let rows = sort_key (\<lambda>g. - int (created_at g))
                     (filter (\<lambda>g. user_id g = userId) (generations d))
        in Inr (if limit < 0 then rows else take (nat limit) rows))"

text \<open>
  \<open>GenerationModel.updateStatus\<close>: one UPDATE writes the status and
  \<open>resultImagePath || null\<close>; no row changed is the error "Generation not found".
\<close>

definition Generation_updateStatus ::
  "db \<Rightarrow> string \<Rightarrow> gen_status \<Rightarrow> string option \<Rightarrow> (js_error + generation) \<times> db" where
  "Generation_updateStatus d i st resultImagePath =
     (if closed d then (Inl db_closed_error, d)
      else if \<not> (\<exists>g \<in> set (generations d). gen_id g = i)
      then (Inl (Error ''Error'' ''Generation not found'' 193), d)
      else
        let d' = d\<lparr>generations :=
                     map (\<lambda>g. if gen_id g = i
                               then g\<lparr>status := st, result_image_path := or_null resultImagePath\<rparr>
                               else g)
                         (generations d)\<rparr>
        in (Generation_findById d' i, d'))"

section \<open>Validation (backend/src/utils/validation.ts)\<close>

text \<open>The message zod gives a field that is not a string.\<close>

definition zod_invalid_string :: string where
  "zod_invalid_string = ''Invalid input: expected string, received undefined''"

record login_body =
  login_email :: "string option"
  login_password :: "string option"

text \<open>\<open>loginSchema.parse\<close>: the issues of \<open>email\<close>, then those of \<open>password\<close>.\<close>

definition loginSchema_parse :: "env \<Rightarrow> login_body \<Rightarrow> js_error + string \<times> string" where
  "loginSchema_parse env b =
     (let email_issues = (case login_email b of
                            None \<Rightarrow> [zod_invalid_string]
                          | Some e \<Rightarrow> if is_email env e then [] else [''Invalid email format'']);
          password_issues = (case login_password b of
                               None \<Rightarrow> [zod_invalid_string]
                             | Some p \<Rightarrow> if length p < 1 then [''Password is required''] else [])
      in case (login_email b, login_password b) of
           (Some e, Some p) \<Rightarrow>
             if email_issues @ password_issues = [] then Inr (e, p)
             else Inl (ZodError (email_issues @ password_issues))
         | _ \<Rightarrow> Inl (ZodError (email_issues @ password_issues)))"

record generation_body =
  body_prompt :: "string option"
  body_style :: "string option"

definition STYLES :: "string list" where
  "STYLES = [''realistic'', ''artistic'', ''cartoon'', ''vintage'']"

text \<open>
  \<open>createGenerationSchema.parse\<close>: \<open>prompt\<close> is a string with \<open>min(1)\<close> and \<open>max(500)\<close>,
  \<open>style\<close> one of the four; the issues of \<open>prompt\<close> come first.
\<close>

definition createGenerationSchema_parse :: "generation_body \<Rightarrow> js_error + string \<times> string" where
  "createGenerationSchema_parse b =
     (let prompt_issues = (case body_prompt b of
                             None \<Rightarrow> [zod_invalid_string]
                           | Some p \<Rightarrow> (if length p < 1 then [''Prompt is required''] else [])
                                       @ (if 500 < length p then [''Prompt too long''] else []));
          style_issues = (case body_style b of
                            None \<Rightarrow> [''Invalid style option'']
                          | Some s \<Rightarrow> if s \<in> set STYLES then [] else [''Invalid style option''])
      in case (body_prompt b, body_style b) of
           (Some p, Some s) \<Rightarrow>
             if prompt_issues @ style_issues = [] then Inr (p, s)
             else Inl (ZodError (prompt_issues @ style_issues))
         | _ \<Rightarrow> Inl (ZodError (prompt_issues @ style_issues)))"

text \<open>
  \<open>parseInt(val, 10)\<close>: leading white space is skipped, one sign is read, then the longest
  run of decimal digits; no digit is NaN, here \<open>None\<close>. The result here is the integer
  the digits denote with the sign. The number JavaScript returns is that integer rounded to
  a double: the same integer up to 2^53 in magnitude, and beyond that a number of the same
  sign and at least that magnitude, so that the minimum and maximum with 1 and 20 taken
  below do not tell the two apart.
\<close>

definition is_digit :: "char \<Rightarrow> bool" where
  "is_digit c = (c \<in> set ''0123456789'')"

definition digit_value :: "char \<Rightarrow> nat" where
  "digit_value c = of_char c - 48"

definition parseInt :: "string \<Rightarrow> int option" where
  "parseInt val =
     (let s = dropWhile is_space val;
          negative = (case s of c # rest \<Rightarrow> c = CHR ''-'' | [] \<Rightarrow> False);
          unsigned = (case s of c # rest \<Rightarrow> if c = CHR ''-'' \<or> c = CHR ''+'' then rest else s
                      | [] \<Rightarrow> []);
          digits = takeWhile is_digit unsigned;
          magnitude = int (foldl (\<lambda>a c. 10 * a + digit_value c) 0 digits)
      in if digits = [] then None
         else Some (if negative then - magnitude else magnitude))"

text \<open>
  The function that \<open>getGenerationsSchema\<close> gives \<open>transform\<close>, lines 23 to 27: its
  argument is \<open>undefined\<close> or a string.
\<close>

definition getGenerationsSchema_limit :: "string option \<Rightarrow> int" where
  "getGenerationsSchema_limit q =
     (case q of
        None \<Rightarrow> 5
      | Some val \<Rightarrow>
          if val = [] then 5
          else (case parseInt val of None \<Rightarrow> 5 | Some num \<Rightarrow> min (max num 1) 20))"

text \<open>
  A value of \<open>req.query\<close>, as the query parser of Express builds it: a string when the key
  occurs once, an array when it is repeated (\<open>?limit=1&limit=2\<close>) or written with brackets,
  an object when it is written with named brackets (\<open>?limit[a]=1\<close>).
\<close>

datatype query_value =
    QString string
  | QArray "query_value list"
  | QObject "(string \<times> query_value) list"

text \<open>The message zod gives a value that is not a string, from the type it received.\<close>

definition zod_received :: "query_value \<Rightarrow> string" where
  "zod_received v =
     (case v of QString s \<Rightarrow> ''string'' | QArray vs \<Rightarrow> ''array'' | QObject kvs \<Rightarrow> ''object'')"

definition zod_expected_string :: "string \<Rightarrow> string" where
  "zod_expected_string received = ''Invalid input: expected string, received '' @ received"

text \<open>
  \<open>getGenerationsSchema.parse(req.query).limit\<close>, lines 22 to 28; \<open>q\<close> is
  \<open>req.query.limit\<close>, \<open>None\<close> when the query has no such key. \<open>z.string().optional()\<close>
  lets \<open>undefined\<close> and strings through to the function above and refuses anything else with
  a \<open>ZodError\<close>.
\<close>

definition getGenerationsSchema_parse :: "query_value option \<Rightarrow> js_error + int" where
  "getGenerationsSchema_parse q =
     (case q of
        None \<Rightarrow> Inr (getGenerationsSchema_limit None)
      | Some (QString val) \<Rightarrow> Inr (getGenerationsSchema_limit (Some val))
      | Some v \<Rightarrow> Inl (ZodError [zod_expected_string (zod_received v)]))"

record upload =
  mimetype :: string
  file_size :: nat
  file_path :: string

definition validateImageFile :: "upload \<Rightarrow> string option" where
  "validateImageFile file =
     (if mimetype file \<notin> set [''image/jpeg'', ''image/jpg'', ''image/png'']
      then Some ''Only JPEG and PNG files are allowed''
      else if 10 * 1024 * 1024 < file_size file then Some ''File size must be less than 10MB''
      else None)"

section \<open>Authentication (backend/src/middleware/auth.ts and the auth controller)\<close>

definition secret :: "env \<Rightarrow> string" where
  "secret env = or_else (JWT_SECRET env) ''your-super-secret-jwt-key-change-in-production''"

text \<open>
  The library jsonwebtoken, as the middleware uses it. \<open>jwt.sign\<close> with \<open>expiresIn: '7d'\<close>
  signs the payload with the key and lets it expire seven days later. \<open>jwt.verify\<close> throws
  a \<open>JsonWebTokenError\<close> for a string that is no token or a signature made with another
  key, and a \<open>TokenExpiredError\<close>, which is a subclass of \<open>JsonWebTokenError\<close>, for a
  token whose expiry has passed.
\<close>

definition jwt_sign :: "nat \<Rightarrow> nat \<Rightarrow> string \<Rightarrow> string \<Rightarrow> token" where
  "jwt_sign now userId mail key = Token userId mail (now + 7 * 24 * 3600) key"

definition jwt_verify :: "nat \<Rightarrow> token \<Rightarrow> string \<Rightarrow> js_error + nat \<times> string" where
  "jwt_verify now t key =
     (case t of
        Garbled s \<Rightarrow> Inl (JwtError ''JsonWebTokenError'' ''jwt malformed'')
      | Token userId mail expiry signed_with \<Rightarrow>
          if signed_with \<noteq> key then Inl (JwtError ''JsonWebTokenError'' ''invalid signature'')
          else if expiry \<le> now then Inl (JwtError ''TokenExpiredError'' ''jwt expired'')
          else Inr (userId, mail))"

definition generateToken :: "env \<Rightarrow> nat \<Rightarrow> nat \<Rightarrow> string \<Rightarrow> token" where
  "generateToken env now userId mail = jwt_sign now userId mail (secret env)"

record req_user =
  req_uid :: nat
  req_email :: string

text \<open>
  \<open>authenticateToken\<close>, lines 15 to 46. The argument is the second word of the
  Authorization header, \<open>None\<close> when the header or the word is missing. The \<open>catch\<close>
  block replaces every instance of \<open>jwt.JsonWebTokenError\<close> and passes any other error on.
\<close>

definition auth_catch :: "js_error \<Rightarrow> js_error" where
  "auth_catch e = (case e of JwtError n m \<Rightarrow> AppError ''Invalid token'' 401 41 | _ \<Rightarrow> e)"

definition authenticateToken :: "env \<Rightarrow> nat \<Rightarrow> db \<Rightarrow> token option \<Rightarrow> js_error + req_user" where
  "authenticateToken env now d tok =
     (case tok of
        None \<Rightarrow> Inl (auth_catch (AppError ''Access token required'' 401 25))
      | Some t \<Rightarrow>
          (case jwt_verify now t (secret env) of
             Inl e \<Rightarrow> Inl (auth_catch e)
           | Inr (userId, mail) \<Rightarrow>
               (case User_findById d userId of
                  Inl e \<Rightarrow> Inl (auth_catch e)
                | Inr u \<Rightarrow> Inr \<lparr>req_uid = uid u, req_email = email u\<rparr>)))"

text \<open>The controller \<open>me\<close> and the route GET /api/auth/me with its error handler.\<close>

definition me :: "db \<Rightarrow> req_user option \<Rightarrow> js_error + response" where
  "me d ru =
     (case ru of
        None \<Rightarrow> Inl (AppError ''User not authenticated'' 401 84)
      | Some r \<Rightarrow>
          if req_uid r = 0 then Inl (AppError ''User not authenticated'' 401 84)
          else (case User_findById d (req_uid r) of
                  Inl e \<Rightarrow> Inl e
                | Inr u \<Rightarrow>
                    Inr \<lparr>res_status = 200, res_success = True, res_message = None,
                         res_data = UserOnly \<lparr>view_uid = uid u, view_email = email u,
                                               view_registered_at = registered_at u\<rparr>,
                         res_stack = None\<rparr>))"

definition respond :: "env \<Rightarrow> js_error + response \<Rightarrow> response" where
  "respond env r = (case r of Inl e \<Rightarrow> errorHandler env e | Inr res \<Rightarrow> res)"

definition get_me :: "env \<Rightarrow> nat \<Rightarrow> db \<Rightarrow> token option \<Rightarrow> response" where
  "get_me env now d tok =
     (case authenticateToken env now d tok of
        Inl e \<Rightarrow> errorHandler env e
      | Inr ru \<Rightarrow> respond env (me d (Some ru)))"

text \<open>The controller \<open>login\<close>, lines 46 to 78 of the auth controller, and POST /api/auth/login.\<close>

definition login :: "env \<Rightarrow> nat \<Rightarrow> db \<Rightarrow> login_body \<Rightarrow> js_error + response" where
  "login env now d b =
     (case loginSchema_parse env b of
        Inl e \<Rightarrow> Inl e
      | Inr (mail, pw) \<Rightarrow>
          (case User_findByEmail d mail of
             Inl e \<Rightarrow> Inl e
           | Inr None \<Rightarrow> Inl (AppError ''Invalid email or password'' 401 54)
           | Inr (Some u) \<Rightarrow>
               if \<not> bcrypt_compare env pw (password u)
               then Inl (AppError ''Invalid email or password'' 401 60)
               else Inr \<lparr>res_status = 200, res_success = True,
                         res_message = Some ''Login successful'',
                         res_data = UserAndToken
                                      \<lparr>view_uid = uid u, view_email = email u,
                                        view_registered_at = registered_at u\<rparr>
                                      (generateToken env now (uid u) (email u)),
                         res_stack = None\<rparr>))"

definition post_login :: "env \<Rightarrow> nat \<Rightarrow> db \<Rightarrow> login_body \<Rightarrow> response" where
  "post_login env now d b = respond env (login env now d b)"

section \<open>The generations controller (backend/src/controllers/generationsController.ts)\<close>

text \<open>\<open>req.user?.id\<close> followed by \<open>if (!userId)\<close>: no user and the id 0 are both refused.\<close>

definition authenticated_id :: "req_user option \<Rightarrow> js_error + nat" where
  "authenticated_id ru =
     (case ru of
        None \<Rightarrow> Inl (AppError ''User not authenticated'' 401 45)
      | Some r \<Rightarrow>
          if req_uid r = 0 then Inl (AppError ''User not authenticated'' 401 45)
          else Inr (req_uid r))"

text \<open>
  \<open>createGeneration\<close>, lines 42 to 89. It returns what the handler throws or sends, the
  database, and the background tasks it started: the pairs \<open>(generationId,
  originalImagePath)\<close> handed to \<open>processGeneration\<close>, which the handler does not await.
  \<open>generationId\<close> is the identifier the handler draws, \<open>now\<close> the time of the request.
\<close>

definition createGeneration ::
  "nat \<Rightarrow> string \<Rightarrow> db \<Rightarrow> req_user option \<Rightarrow> generation_body \<Rightarrow> upload option
     \<Rightarrow> (js_error + response) \<times> db \<times> (string \<times> string) list" where
  "createGeneration now generationId d ru b file =
     (case authenticated_id ru of
        Inl e \<Rightarrow> (Inl e, d, [])
      | Inr userId \<Rightarrow>
          (case createGenerationSchema_parse b of
             Inl e \<Rightarrow> (Inl e, d, [])
           | Inr (p, s) \<Rightarrow>
               (case file of
                  None \<Rightarrow> (Inl (AppError ''Image file is required'' 400 55), d, [])
                | Some f \<Rightarrow>
                    (case validateImageFile f of
                       Some fileError \<Rightarrow> (Inl (AppError fileError 400 60), d, [])
                     | None \<Rightarrow>
                         (case Generation_create now d
                                 \<lparr>cd_id = generationId, cd_user_id = userId, cd_prompt = p,
                                  cd_style = s, cd_image_path = Some (file_path f)\<rparr> of
                            (Inl e, d') \<Rightarrow> (Inl e, d', [])
                          | (Inr g, d') \<Rightarrow>
                              (Inr \<lparr>res_status = 201, res_success = True,
                                    res_message = Some ''Generation started'',
                                    res_data = Started
                                      \<lparr>sum_id = gen_id g, sum_prompt = gen_prompt g,
                                       sum_style = gen_style g, sum_status = status g,
                                       sum_created_at = created_at g\<rparr>,
                                    res_stack = None\<rparr>,
                               d', [(generationId, file_path f)]))))))"

text \<open>
  What \<open>simulateProcessing\<close> resolves with: \<open>{success: false}\<close>, or \<open>{success: true,
  resultPath}\<close>.
\<close>

record sim_result =
  sim_success :: bool
  resultPath :: "string option"

text \<open>
  The \<open>try\<close> block of \<open>processGeneration\<close>, lines 93 to 103: the error it throws, if any,
  and the database. \<open>copy_error\<close> is the error \<open>fs.copyFile\<close> rejects with, if it does.
\<close>

definition processGeneration_try ::
  "env \<Rightarrow> sim_result \<Rightarrow> js_error option \<Rightarrow> string \<Rightarrow> string \<Rightarrow> db \<Rightarrow> js_error option \<times> db" where
  "processGeneration_try env result copy_error generationId originalImagePath d =
     (case (sim_success result, or_null (resultPath result)) of
        (True, Some name) \<Rightarrow>
          (let resultPath' = path_join env (path_dirname env originalImagePath) name
           in case copy_error of
                Some e \<Rightarrow> (Some e, d)
              | None \<Rightarrow>
                  (case Generation_updateStatus d generationId Completed (Some resultPath') of
                     (Inl e, d') \<Rightarrow> (Some e, d')
                   | (Inr g, d') \<Rightarrow> (None, d')))
      | _ \<Rightarrow>
          (case Generation_updateStatus d generationId Failed None of
             (Inl e, d') \<Rightarrow> (Some e, d')
           | (Inr g, d') \<Rightarrow> (None, d')))"

text \<open>
  \<open>processGeneration\<close>, lines 91 to 114: the \<open>catch\<close> block writes the status failed unless
  \<open>NODE_ENV\<close> is test. The result is the error the returned promise rejects with, if it
  does, and the database.
\<close>

definition processGeneration ::
  "env \<Rightarrow> sim_result \<Rightarrow> js_error option \<Rightarrow> string \<Rightarrow> string \<Rightarrow> db \<Rightarrow> js_error option \<times> db" where
  "processGeneration env result copy_error generationId originalImagePath d =
     (case processGeneration_try env result copy_error generationId originalImagePath d of
        (None, d') \<Rightarrow> (None, d')
      | (Some err, d') \<Rightarrow>
          if NODE_ENV env \<noteq> ''test''
          then (case Generation_updateStatus d' generationId Failed None of
                  (Inl e, d'') \<Rightarrow> (Some e, d'')
                | (Inr g, d'') \<Rightarrow> (None, d''))
          else (None, d'))"

text \<open>The view of a row that \<open>getGenerations\<close> and \<open>getGeneration\<close> send.\<close>

definition upload_url :: "env \<Rightarrow> string option \<Rightarrow> string option" where
  "upload_url env p =
     (case or_null p of None \<Rightarrow> None | Some f \<Rightarrow> Some (''/uploads/'' @ path_basename env f))"

definition transform :: "env \<Rightarrow> generation \<Rightarrow> gen_view" where
  "transform env gen =
     \<lparr>view_id = gen_id gen, view_prompt = gen_prompt gen, view_style = gen_style gen,
      view_status = status gen, imageUrl = upload_url env (image_path gen),
      resultImageUrl = upload_url env (result_image_path gen),
      view_created_at = created_at gen\<rparr>"

text \<open>\<open>getGenerations\<close>, lines 116 to 145; \<open>q\<close> is \<open>req.query.limit\<close>.\<close>

definition getGenerations ::
  "env \<Rightarrow> db \<Rightarrow> req_user option \<Rightarrow> query_value option \<Rightarrow> js_error + response" where
  "getGenerations env d ru q =
     (case authenticated_id ru of
        Inl e \<Rightarrow> Inl e
      | Inr userId \<Rightarrow>
          (case getGenerationsSchema_parse q of
             Inl e \<Rightarrow> Inl e
           | Inr limit \<Rightarrow>
               (case Generation_findByUserId d userId limit of
                  Inl e \<Rightarrow> Inl e
                | Inr gens \<Rightarrow>
                    Inr \<lparr>res_status = 200, res_success = True, res_message = None,
                         res_data = Generations (map (transform env) gens)
                                      (length (map (transform env) gens)),
                         res_stack = None\<rparr>)))"

text \<open>\<open>getGeneration\<close>, lines 147 to 178; \<open>i\<close> is \<open>req.params.id\<close>.\<close>

definition getGeneration :: "env \<Rightarrow> db \<Rightarrow> req_user option \<Rightarrow> string \<Rightarrow> js_error + response" where
  "getGeneration env d ru i =
     (case authenticated_id ru of
        Inl e \<Rightarrow> Inl e
      | Inr userId \<Rightarrow>
          (case Generation_findById d i of
             Inl e \<Rightarrow> Inl e
           | Inr gen \<Rightarrow>
               if user_id gen \<noteq> userId then Inl (AppError ''Access denied'' 403 158)
               else Inr \<lparr>res_status = 200, res_success = True, res_message = None,
                         res_data = OneGeneration (transform env gen),
                         res_stack = None\<rparr>))"

section \<open>The server as a whole\<close>

text \<open>
  The state of the backend process: the database, the background tasks that were started
  and have not finished, and what \<open>console.error\<close> was given by the \<open>catch\<close> that
  \<open>createGeneration\<close> puts on each task.
\<close>

record server =
  store :: db
  tasks :: "(string \<times> string) list"
  console :: "js_error list"

text \<open>
  What happens to the server: a request of the generations API by a caller the
  authentication middleware let through (for a POST, with the identifier drawn and the
  time); the background task at some position finishing, with what \<open>simulateProcessing\<close>
  resolved to and the error of \<open>fs.copyFile\<close> if it failed; the database connection
  closing or opening.
\<close>

datatype server_event =
    PostGeneration "req_user option" generation_body "upload option" string nat
  | GetGenerations "req_user option" "query_value option"
  | GetGeneration "req_user option" string
  | TaskFinishes nat sim_result "js_error option"
  | Connection bool

fun server_step :: "env \<Rightarrow> server_event \<Rightarrow> server \<Rightarrow> server" where
  "server_step env (PostGeneration ru b file generationId now) s =
     (case createGeneration now generationId (store s) ru b file of
        (r, d', started) \<Rightarrow> s\<lparr>store := d', tasks := tasks s @ started\<rparr>)"
| "server_step env (GetGenerations ru q) s = s"
| "server_step env (GetGeneration ru i) s = s"
| "server_step env (TaskFinishes k result copy_error) s =
     (if k < length (tasks s)
      then (case processGeneration env result copy_error (fst (tasks s ! k)) (snd (tasks s ! k))
                   (store s) of
              (rejected, d') \<Rightarrow>
                s\<lparr>store := d', tasks := take k (tasks s) @ drop (Suc k) (tasks s),
                  console := console s @ (case rejected of None \<Rightarrow> [] | Some e \<Rightarrow> [e])\<rparr>)
      else s)"
| "server_step env (Connection is_open) s = s\<lparr>store := (store s)\<lparr>closed := \<not> is_open\<rparr>\<rparr>"

definition server_run :: "env \<Rightarrow> server_event list \<Rightarrow> server \<Rightarrow> server" where
  "server_run env evs s = foldl (\<lambda>s e. server_step env e s) s evs"

text \<open>The server at start: the users registered so far, no generation, no task.\<close>

definition boot :: "user list \<Rightarrow> server" where
  "boot us = \<lparr>store = \<lparr>users = us, generations = [], closed = False\<rparr>, tasks = [], console = []\<rparr>"

section \<open>Sample data\<close>

text \<open>
  An environment, two users, an upload and a few rows, for the examples below. The
  libraries are replaced by stand-ins: a ZodError's text is its messages put together, an
  email is a string with an at sign, a password's hash is the password behind a prefix, and
  paths are cut and joined at the slash.
\<close>

definition sample_dirname :: "string \<Rightarrow> string" where
  "sample_dirname p = rev (drop 1 (dropWhile (\<lambda>c. c \<noteq> CHR ''/'') (rev p)))"

definition sample_basename :: "string \<Rightarrow> string" where
  "sample_basename p = rev (takeWhile (\<lambda>c. c \<noteq> CHR ''/'') (rev p))"

definition sample_env :: env where
  "sample_env =
     \<lparr>NODE_ENV = ''production'', JWT_SECRET = None, zod_message = concat,
      is_email = (\<lambda>s. CHR ''@'' \<in> set s),
      bcrypt_compare = (\<lambda>pw hash. hash = ''hash:'' @ pw),
      path_join = (\<lambda>a b. a @ ''/'' @ b),
      path_dirname = sample_dirname, path_basename = sample_basename\<rparr>"

definition alice :: user where
  "alice = \<lparr>uid = 1, email = ''a@example.com'', password = ''hash:secret1'', registered_at = 10\<rparr>"

definition bob :: user where
  "bob = \<lparr>uid = 2, email = ''b@example.com'', password = ''hash:secret2'', registered_at = 20\<rparr>"

definition as_alice :: req_user where
  "as_alice = \<lparr>req_uid = 1, req_email = ''a@example.com''\<rparr>"

definition as_bob :: req_user where
  "as_bob = \<lparr>req_uid = 2, req_email = ''b@example.com''\<rparr>"

definition png :: upload where
  "png = \<lparr>mimetype = ''image/png'', file_size = 1000, file_path = ''uploads/cat.png''\<rparr>"

definition sample_row :: "string \<Rightarrow> nat \<Rightarrow> nat \<Rightarrow> generation" where
  "sample_row i owner t =
     \<lparr>gen_id = i, user_id = owner, gen_prompt = ''a cat'', gen_style = ''cartoon'',
      image_path = Some ''uploads/cat.png'', result_image_path = None, status = Processing,
      created_at = t\<rparr>"

definition sample_db :: db where
  "sample_db =
     \<lparr>users = [alice, bob],
      generations = [sample_row ''g1'' 1 100, sample_row ''g2'' 2 200, sample_row ''g3'' 1 300,
                     sample_row ''g4'' 1 200],
      closed = False\<rparr>"

text \<open>What an aborted request is rejected with when the transport names it so, and when it does not.\<close>

definition abort_rejection :: outcome where
  "abort_rejection = Rejected \<lparr>err_name = ''AbortError'', response_message = None\<rparr>"

definition cancel_rejection :: outcome where
  "cancel_rejection = Rejected \<lparr>err_name = ''CanceledError'', response_message = None\<rparr>"

definition development :: env where
  "development = sample_env\<lparr>NODE_ENV := ''development''\<rparr>"

definition testing :: env where
  "testing = sample_env\<lparr>NODE_ENV := ''test''\<rparr>"

text \<open>
  Two jobs of the first user: both are created, then the processor finishes the first with
  a result and the second without.
\<close>

definition cat_body :: generation_body where
  "cat_body = \<lparr>body_prompt = Some ''a cat'', body_style = Some ''cartoon''\<rparr>"

definition two_jobs :: "server_event list" where
  "two_jobs =
     [PostGeneration (Some as_alice) cat_body (Some png) ''j1'' 100,
      PostGeneration (Some as_alice) cat_body (Some png) ''j2'' 200,
      TaskFinishes 0 \<lparr>sim_success = True, resultPath = Some ''result_1.jpg''\<rparr> None,
      TaskFinishes 0 \<lparr>sim_success = False, resultPath = None\<rparr> None]"

definition third_job :: server_event where
  "third_job = PostGeneration (Some as_alice) cat_body (Some png) ''j3'' 300"

text \<open>
  A server with one task in progress, for the first of the sample rows; a result of
  \<open>simulateProcessing\<close> that names a file; and the error of a copy that fails.
\<close>

definition one_task :: server where
  "one_task = \<lparr>store = sample_db, tasks = [(''g1'', ''uploads/cat.png'')], console = []\<rparr>"

definition named_result :: sim_result where
  "named_result = \<lparr>sim_success = True, resultPath = Some ''result_1.jpg''\<rparr>"

definition copy_fails :: js_error where
  "copy_fails = Error ''Error'' ''ENOENT: no such file or directory'' 0"

section \<open>Invariants of the server\<close>

text \<open>
  A row is consistent when it has a result path exactly if it is completed, and the path
  is then not empty.
\<close>

definition consistent :: "generation \<Rightarrow> bool" where
  "consistent g =
     (case result_image_path g of
        None \<Rightarrow> status g \<noteq> Completed
      | Some p \<Rightarrow> p \<noteq> [] \<and> status g = Completed)"

text \<open>
  \<open>only_rows_of i d d'\<close>: from \<open>d\<close> to \<open>d'\<close> the table has kept its length and the
  identifier of every row, and only rows with the identifier \<open>i\<close> may have changed.
\<close>

definition only_rows_of :: "string \<Rightarrow> db \<Rightarrow> db \<Rightarrow> bool" where
  "only_rows_of i d d' =
     (length (generations d') = length (generations d)
      \<and> (\<forall>k < length (generations d).
            gen_id (generations d' ! k) = gen_id (generations d ! k)
            \<and> (gen_id (generations d ! k) \<noteq> i \<longrightarrow> generations d' ! k = generations d ! k)))"

text \<open>
  The tasks in progress: identifiers are unique among the rows and among the tasks, and
  every task has a row, which is still processing.
\<close>

definition pending_ok :: "server \<Rightarrow> bool" where
  "pending_ok s =
     (distinct (map gen_id (generations (store s)))
      \<and> distinct (map fst (tasks s))
      \<and> (\<forall>t \<in> set (tasks s).
            \<exists>g \<in> set (generations (store s)). gen_id g = fst t \<and> status g = Processing))"

section \<open>Properties of the client generation controller\<close>

lemma run_append: "run (xs @ ys) w = run ys (run xs w)"
  by (simp add: run_def)

lemma run_Cons: "run (e # evs) w = run evs (step e w)"
  by (simp add: run_def)

lemma run_Nil: "run [] w = w"
  by (simp add: run_def)

lemma trim_test_prompt: "trim ''Test prompt'' = ''Test prompt''"
  by (simp add: trim_def is_space_def)

lemma includes_marker: "str_includes ''Model overloaded'' ''Model overloaded''"
  by simp

lemma retry_text: "show_nat (Suc 0) = ''1''" "show_nat 3 = ''3''"
  by (simp_all add: show_nat.simps)

text \<open>
  After the click and \<open>n\<close> rounds in which the request is rejected as overloaded and the
  retry timer fires, request number \<open>n\<close> is in flight on behalf of the render of the click.
\<close>

lemma overload_rounds_state:
  "run (ClickGenerate # overload_rounds n) ready =
     ready\<lparr>ui := (ui ready)\<lparr>isGenerating := True, retryCount := n, abortController := Some n\<rparr>,
           controllers := Suc n, inflight := [(n, ui ready)], calls := Suc n\<rparr>"
proof (induction n)
  case 0
  show ?case
    by (simp add: run_Cons run_Nil ready_def handleGenerate_def trim_test_prompt)
next
  case (Suc n)
  have "run (ClickGenerate # overload_rounds (Suc n)) ready =
        run [Settle n overload_rejection, Timer] (run (ClickGenerate # overload_rounds n) ready)"
    using run_append [of "ClickGenerate # overload_rounds n" "[Settle n overload_rejection, Timer]" ready]
    by simp
  also have "\<dots> = ready\<lparr>ui := (ui ready)\<lparr>isGenerating := True, retryCount := Suc n,
                                           abortController := Some (Suc n)\<rparr>,
                         controllers := Suc (Suc n), inflight := [(Suc n, ui ready)],
                         calls := Suc (Suc n)\<rparr>"
    unfolding Suc.IH
    by (simp add: run_Cons run_Nil ready_def handleGenerate_settled_def overload_rejection_def
        or_else_def includes_marker MAX_RETRIES_def finally_block_def retry_callback_def
        handleGenerate_def trim_test_prompt)
  finally show ?case .
qed

text \<open>
  C1. Claimed: when every create-generation call is rejected as overloaded, one submission
  from idle issues exactly four calls and then shows the last error as final. The code:
  the retry timer calls the \<open>handleGenerate\<close> of the render of the click, whose
  \<open>retryCount\<close> is 0 for ever, so the bound \<open>retryCount < MAX_RETRIES\<close> never fails. After
  \<open>n\<close> rejections \<open>n + 1\<close> calls have been issued, for every \<open>n\<close> (five after four
  rejections), and the message after the fourth rejection still announces retry 1 of 3
  with a timer pending.
\<close>

theorem retries_unbounded:
  "(\<forall>n. calls (run (ClickGenerate # overload_rounds n) ready) = Suc n)
   \<and> calls (run (ClickGenerate # overload_rounds 4) ready) = 5
   \<and> error (ui (run (ClickGenerate # overload_rounds 3 @ [Settle 3 overload_rejection]) ready))
       = ''Model overloaded. Retrying... (1/3)''
   \<and> timers (run (ClickGenerate # overload_rounds 3 @ [Settle 3 overload_rejection]) ready)
       = [ui ready]"
proof -
  have a: "\<forall>n. calls (run (ClickGenerate # overload_rounds n) ready) = Suc n"
    by (simp add: overload_rounds_state)
  have b: "run (ClickGenerate # overload_rounds 3 @ [Settle 3 overload_rejection]) ready =
           run [Settle 3 overload_rejection] (run (ClickGenerate # overload_rounds 3) ready)"
    using run_append [of "ClickGenerate # overload_rounds 3" "[Settle 3 overload_rejection]" ready]
    by simp
  have c: "error (ui (run [Settle 3 overload_rejection] (run (ClickGenerate # overload_rounds 3) ready)))
             = ''Model overloaded. Retrying... (1/3)''"
    unfolding overload_rounds_state
    by (simp add: run_Cons run_Nil ready_def handleGenerate_settled_def overload_rejection_def
        or_else_def includes_marker MAX_RETRIES_def finally_block_def retry_text)
  have d: "timers (run [Settle 3 overload_rejection] (run (ClickGenerate # overload_rounds 3) ready))
             = [ui ready]"
    unfolding overload_rounds_state
    by (simp add: run_Cons run_Nil ready_def handleGenerate_settled_def overload_rejection_def
        or_else_def includes_marker MAX_RETRIES_def finally_block_def)
  from a b c d show ?thesis by simp
qed

text \<open>
  When the aborted request is rejected under the name AbortError, a cancellation while the
  request is in flight ends quietly: one call, no timer, no message.
\<close>

lemma cancel_in_flight_quiet:
  "run [ClickGenerate, ClickStop, Settle 0 abort_rejection] ready = ready\<lparr>aborted := [0], controllers := 1, calls := 1\<rparr>"
  by (simp add: run_def ready_def handleGenerate_def trim_test_prompt handleAbort_def
      handleGenerate_settled_def abort_rejection_def finally_block_def)

text \<open>
  C2. Claimed: once the user cancels, no further create-generation call of the attempt is
  issued and the controller is idle with no error shown. The code: the user clicks Stop
  while the first request is in flight, so its controller is aborted. If the request is
  then rejected as overloaded, the handler schedules a retry, and the timer's check reads
  \<open>abortController\<close> of the render of the click, which is null: the second call is
  issued and the retry message is on display. If the request is rejected as cancelled
  under any name but AbortError (axios names it CanceledError; the repository's test
  rejects with a plain Error), the handler shows "Generation failed".
\<close>

theorem cancelled_attempt_resumes:
  "aborted (run [ClickGenerate, ClickStop] ready) = [0]
   \<and> calls (run [ClickGenerate, ClickStop] ready) = 1
   \<and> error (ui (run [ClickGenerate, ClickStop, Settle 0 overload_rejection] ready))
       = ''Model overloaded. Retrying... (1/3)''
   \<and> calls (run [ClickGenerate, ClickStop, Settle 0 overload_rejection, Timer] ready) = 2
   \<and> isGenerating (ui (run [ClickGenerate, ClickStop, Settle 0 overload_rejection, Timer] ready))
   \<and> error (ui (run [ClickGenerate, ClickStop, Settle 0 cancel_rejection] ready))
       = ''Generation failed''"
  by (simp add: run_def ready_def handleGenerate_def trim_test_prompt handleAbort_def
      handleGenerate_settled_def overload_rejection_def cancel_rejection_def or_else_def
      MAX_RETRIES_def finally_block_def retry_callback_def retry_text)

section \<open>Properties of the error handler and of authentication\<close>

lemma errorHandler_invalid_token:
  "errorHandler env (AppError ''Invalid token'' 401 l) =
     \<lparr>res_status = 401, res_success = False, res_message = Some ''Invalid token'',
      res_data = NoData,
      res_stack = (if NODE_ENV env = ''development'' then Some (''Invalid token'', l) else None)\<rparr>"
  by (simp add: errorHandler_def err_statusCode_def err_message_def err_name_of_def err_stack_def)

lemma errorHandler_access_denied:
  "errorHandler env (AppError ''Access denied'' 403 l) =
     \<lparr>res_status = 403, res_success = False, res_message = Some ''Access denied'',
      res_data = NoData,
      res_stack = (if NODE_ENV env = ''development'' then Some (''Access denied'', l) else None)\<rparr>"
  by (simp add: errorHandler_def err_statusCode_def err_message_def err_name_of_def err_stack_def)

lemma errorHandler_bad_login:
  "errorHandler env (AppError ''Invalid email or password'' 401 l) =
     \<lparr>res_status = 401, res_success = False, res_message = Some ''Invalid email or password'',
      res_data = NoData,
      res_stack = (if NODE_ENV env = ''development''
                   then Some (''Invalid email or password'', l) else None)\<rparr>"
  by (simp add: errorHandler_def err_statusCode_def err_message_def err_name_of_def err_stack_def)

lemma errorHandler_generation_not_found:
  "errorHandler env (Error ''Error'' ''Generation not found'' l) =
     \<lparr>res_status = 404, res_success = False, res_message = Some ''Generation not found'',
      res_data = NoData,
      res_stack = (if NODE_ENV env = ''development''
                   then Some (''Generation not found'', l) else None)\<rparr>"
  by (simp add: errorHandler_def err_statusCode_def err_message_def err_name_of_def err_stack_def)

text \<open>
  The handler's own branch for an expired token: an error named TokenExpiredError that
  reaches it is answered with "Token expired".
\<close>

lemma errorHandler_token_expired:
  "res_status (errorHandler env (JwtError ''TokenExpiredError'' ''jwt expired'')) = 401"
  "res_message (errorHandler env (JwtError ''TokenExpiredError'' ''jwt expired'')) = Some ''Token expired''"
  by (simp_all add: errorHandler_def err_statusCode_def err_message_def err_name_of_def
      err_stack_def)

text \<open>
  C8. Claimed: an expired token is answered 401 "Token expired" and a tampered one 401
  "Invalid token". The code: \<open>jwt.verify\<close> throws a TokenExpiredError for an expired token,
  that is an instance of \<open>jwt.JsonWebTokenError\<close>, and the \<open>catch\<close> block of
  \<open>authenticateToken\<close> replaces every such instance by the AppError "Invalid token"
  before the error handler sees it. A token signed with the server's key and used at or
  after its expiry, and a token signed with another key, get the same response: 401
  "Invalid token". So does the token \<open>generateToken\<close> issued seven days earlier.
\<close>

theorem expired_token_reported_invalid:
  "get_me env (expiry + k) d (Some (Token userId mail expiry (secret env)))
     = errorHandler env (AppError ''Invalid token'' 401 41)
   \<and> get_me env now d (Some (Token userId mail expiry (CHR ''x'' # secret env)))
     = errorHandler env (AppError ''Invalid token'' 401 41)
   \<and> res_status (get_me env (expiry + k) d (Some (Token userId mail expiry (secret env)))) = 401
   \<and> res_message (get_me env (expiry + k) d (Some (Token userId mail expiry (secret env))))
       = Some ''Invalid token''
   \<and> res_message (get_me env (now + 7 * 24 * 3600) d (Some (generateToken env now userId mail)))
       = Some ''Invalid token''"
  by (simp add: get_me_def authenticateToken_def jwt_verify_def auth_catch_def
      errorHandler_invalid_token generateToken_def jwt_sign_def)

section \<open>Properties of the generations API\<close>

text \<open>
  C6. For a caller the handler accepts as authenticated (a user whose id is not 0) and a
  database that answers: fetching a job id that no row has is answered 404; fetching a job
  of another user is answered 403 with the message "Access denied" and no data, by a
  response that is built from the environment alone and so says nothing of the job; the
  owner gets 200 with the job; and 200 is sent to the owner only.
\<close>

theorem getGeneration_owner_only:
  assumes "\<not> closed d" and "req_uid ru \<noteq> 0"
  shows "(find (\<lambda>g. gen_id g = i) (generations d) = None \<longrightarrow>
            respond env (getGeneration env d (Some ru) i)
              = errorHandler env (Error ''Error'' ''Generation not found'' 149)
            \<and> res_status (respond env (getGeneration env d (Some ru) i)) = 404)
       \<and> (\<forall>g. find (\<lambda>g. gen_id g = i) (generations d) = Some g \<and> user_id g \<noteq> req_uid ru \<longrightarrow>
            respond env (getGeneration env d (Some ru) i)
              = errorHandler env (AppError ''Access denied'' 403 158)
            \<and> res_status (respond env (getGeneration env d (Some ru) i)) = 403
            \<and> res_message (respond env (getGeneration env d (Some ru) i)) = Some ''Access denied''
            \<and> res_data (respond env (getGeneration env d (Some ru) i)) = NoData)
       \<and> (\<forall>g. find (\<lambda>g. gen_id g = i) (generations d) = Some g \<and> user_id g = req_uid ru \<longrightarrow>
            respond env (getGeneration env d (Some ru) i)
              = \<lparr>res_status = 200, res_success = True, res_message = None,
                 res_data = OneGeneration (transform env g), res_stack = None\<rparr>)
       \<and> (res_status (respond env (getGeneration env d (Some ru) i)) = 200 \<longleftrightarrow>
            (\<exists>g. find (\<lambda>g. gen_id g = i) (generations d) = Some g \<and> user_id g = req_uid ru))"
proof (cases "find (\<lambda>g. gen_id g = i) (generations d)")
  case None
  with assms show ?thesis
    by (simp add: getGeneration_def authenticated_id_def Generation_findById_def respond_def
        errorHandler_generation_not_found)
next
  case (Some g)
  with assms show ?thesis
    by (simp add: getGeneration_def authenticated_id_def Generation_findById_def respond_def
        errorHandler_access_denied)
qed


theorem getGeneration_owner_only_witness:
  "res_status (respond sample_env (getGeneration sample_env sample_db (Some as_bob) ''g9'')) = 404
   \<and> res_status (respond sample_env (getGeneration sample_env sample_db (Some as_bob) ''g1'')) = 403
   \<and> res_message (respond sample_env (getGeneration sample_env sample_db (Some as_bob) ''g1''))
       = Some ''Access denied''
   \<and> res_status (respond sample_env (getGeneration sample_env sample_db (Some as_alice) ''g1'')) = 200"
proof -
  have open_db: "\<not> closed sample_db" by (simp add: sample_db_def)
  have bob_in: "req_uid as_bob \<noteq> 0" by (simp add: as_bob_def)
  have alice_in: "req_uid as_alice \<noteq> 0" by (simp add: as_alice_def)
  have g9: "find (\<lambda>g. gen_id g = ''g9'') (generations sample_db) = None"
    by (simp add: sample_db_def sample_row_def)
  have g1: "find (\<lambda>g. gen_id g = ''g1'') (generations sample_db) = Some (sample_row ''g1'' 1 100)"
    by (simp add: sample_db_def sample_row_def)
  have owner: "user_id (sample_row ''g1'' 1 100) = req_uid as_alice"
    "user_id (sample_row ''g1'' 1 100) \<noteq> req_uid as_bob"
    by (simp_all add: sample_row_def as_alice_def as_bob_def)
  have a: "res_status (respond sample_env (getGeneration sample_env sample_db (Some as_bob) ''g9'')) = 404"
    using getGeneration_owner_only [OF open_db bob_in, of "''g9''" sample_env] g9 by blast
  have b: "res_status (respond sample_env (getGeneration sample_env sample_db (Some as_bob) ''g1'')) = 403
     \<and> res_message (respond sample_env (getGeneration sample_env sample_db (Some as_bob) ''g1''))
         = Some ''Access denied''"
    using getGeneration_owner_only [OF open_db bob_in, of "''g1''" sample_env] g1 owner by blast
  have c: "res_status (respond sample_env (getGeneration sample_env sample_db (Some as_alice) ''g1'')) = 200"
    using getGeneration_owner_only [OF open_db alice_in, of "''g1''" sample_env] g1 owner by blast
  from a b c show ?thesis by simp
qed

section \<open>Properties of login\<close>

text \<open>
  The claim that the two causes of a failed login cannot be told apart fails in
  development: there the error handler adds \<open>err.stack\<close> to the response, and the
  two errors are thrown at different lines. An unknown email and a wrong password for a
  known email are both answered 401, by different responses.
\<close>

theorem login_failure_stack_differs:
  "find (\<lambda>u. email u = ''nobody@example.com'') (users sample_db) = None
   \<and> find (\<lambda>u. email u = ''a@example.com'') (users sample_db) = Some alice
   \<and> \<not> bcrypt_compare development ''wrong'' (password alice)
   \<and> res_status (post_login development 0 sample_db
         \<lparr>login_email = Some ''nobody@example.com'', login_password = Some ''wrong''\<rparr>) = 401
   \<and> res_status (post_login development 0 sample_db
         \<lparr>login_email = Some ''a@example.com'', login_password = Some ''wrong''\<rparr>) = 401
   \<and> post_login development 0 sample_db
         \<lparr>login_email = Some ''nobody@example.com'', login_password = Some ''wrong''\<rparr>
       \<noteq> post_login development 0 sample_db
         \<lparr>login_email = Some ''a@example.com'', login_password = Some ''wrong''\<rparr>"
  by (simp add: post_login_def login_def loginSchema_parse_def User_findByEmail_def respond_def
      development_def sample_env_def sample_db_def alice_def bob_def errorHandler_bad_login)

text \<open>
  C10, amended. A login that passes validation and fails, because no user has the email or
  because the password does not match the stored hash, is answered 401 with the message
  "Invalid email or password", \<open>success\<close> false and no data, whichever the cause; and
  unless \<open>NODE_ENV\<close> is development the whole response is the same for both causes.
\<close>

theorem login_failures_alike:
  assumes "\<not> closed d" and "loginSchema_parse env b = Inr (mail, pw)"
    and "find (\<lambda>u. email u = mail) (users d) = None
         \<or> (\<exists>u. find (\<lambda>u. email u = mail) (users d) = Some u \<and> \<not> bcrypt_compare env pw (password u))"
  shows "res_status (post_login env now d b) = 401
       \<and> res_success (post_login env now d b) = False
       \<and> res_message (post_login env now d b) = Some ''Invalid email or password''
       \<and> res_data (post_login env now d b) = NoData
       \<and> (NODE_ENV env \<noteq> ''development'' \<longrightarrow>
            post_login env now d b
              = \<lparr>res_status = 401, res_success = False,
                 res_message = Some ''Invalid email or password'', res_data = NoData,
                 res_stack = None\<rparr>)"
  using assms
  by (auto simp add: post_login_def login_def User_findByEmail_def respond_def
      errorHandler_bad_login)

theorem login_failures_alike_witness:
  "post_login sample_env 0 sample_db
      \<lparr>login_email = Some ''nobody@example.com'', login_password = Some ''wrong''\<rparr>
     = \<lparr>res_status = 401, res_success = False,
        res_message = Some ''Invalid email or password'', res_data = NoData, res_stack = None\<rparr>
   \<and> post_login sample_env 0 sample_db
      \<lparr>login_email = Some ''a@example.com'', login_password = Some ''wrong''\<rparr>
     = \<lparr>res_status = 401, res_success = False,
        res_message = Some ''Invalid email or password'', res_data = NoData, res_stack = None\<rparr>"
proof -
  have open_db: "\<not> closed sample_db" by (simp add: sample_db_def)
  have prod: "NODE_ENV sample_env \<noteq> ''development''" by (simp add: sample_env_def)
  have p1: "loginSchema_parse sample_env
              \<lparr>login_email = Some ''nobody@example.com'', login_password = Some ''wrong''\<rparr>
            = Inr (''nobody@example.com'', ''wrong'')"
    by (simp add: loginSchema_parse_def sample_env_def)
  have p2: "loginSchema_parse sample_env
              \<lparr>login_email = Some ''a@example.com'', login_password = Some ''wrong''\<rparr>
            = Inr (''a@example.com'', ''wrong'')"
    by (simp add: loginSchema_parse_def sample_env_def)
  have c1: "find (\<lambda>u. email u = ''nobody@example.com'') (users sample_db) = None
         \<or> (\<exists>u. find (\<lambda>u. email u = ''nobody@example.com'') (users sample_db) = Some u
                \<and> \<not> bcrypt_compare sample_env ''wrong'' (password u))"
    by (simp add: sample_db_def alice_def bob_def)
  have c2: "find (\<lambda>u. email u = ''a@example.com'') (users sample_db) = None
         \<or> (\<exists>u. find (\<lambda>u. email u = ''a@example.com'') (users sample_db) = Some u
                \<and> \<not> bcrypt_compare sample_env ''wrong'' (password u))"
    by (simp add: sample_db_def alice_def bob_def sample_env_def)
  show ?thesis
    using login_failures_alike [OF open_db p1 c1, of 0] login_failures_alike [OF open_db p2 c2, of 0]
      prod
    by blast
qed

text \<open>
  The claim that a prompt is accepted only if it is not empty after trimming fails: the
  schema measures the prompt as sent. A prompt of three spaces, empty once trimmed, is
  answered 201 and stored.
\<close>

theorem blank_prompt_accepted:
  "trim ''   '' = []
   \<and> fst (createGeneration 500 ''g5'' sample_db (Some as_alice)
            \<lparr>body_prompt = Some ''   '', body_style = Some ''artistic''\<rparr> (Some png))
       = Inr \<lparr>res_status = 201, res_success = True, res_message = Some ''Generation started'',
              res_data = Started \<lparr>sum_id = ''g5'', sum_prompt = ''   '', sum_style = ''artistic'',
                                   sum_status = Processing, sum_created_at = 500\<rparr>,
              res_stack = None\<rparr>
   \<and> map gen_prompt (generations (fst (snd (createGeneration 500 ''g5'' sample_db (Some as_alice)
            \<lparr>body_prompt = Some ''   '', body_style = Some ''artistic''\<rparr> (Some png)))))
       = [''a cat'', ''a cat'', ''a cat'', ''a cat'', ''   '']"
  by (simp add: trim_def is_space_def createGeneration_def authenticated_id_def as_alice_def
      createGenerationSchema_parse_def STYLES_def validateImageFile_def png_def
      Generation_create_def sample_db_def sample_row_def or_null_def Generation_findById_def
      Let_def)

text \<open>
  C7, amended. For an authenticated caller and a valid style, the create request is
  refused with a validation error exactly when the prompt as sent (not trimmed) is empty
  or longer than 500 characters; the refusal leaves the database as it was and starts no
  task; a prompt of exactly 500 characters passes validation and one of 501 is refused as
  too long.
\<close>

theorem prompt_validation:
  assumes "req_uid ru \<noteq> 0" and "s \<in> set STYLES"
  shows "((\<exists>issues. fst (createGeneration now generationId d (Some ru)
                          \<lparr>body_prompt = Some p, body_style = Some s\<rparr> file)
                     = Inl (ZodError issues))
           \<longleftrightarrow> \<not> (1 \<le> length p \<and> length p \<le> 500))
       \<and> (\<not> (1 \<le> length p \<and> length p \<le> 500) \<longrightarrow>
            snd (createGeneration now generationId d (Some ru)
                   \<lparr>body_prompt = Some p, body_style = Some s\<rparr> file) = (d, []))
       \<and> (length p = 500 \<longrightarrow>
            createGenerationSchema_parse \<lparr>body_prompt = Some p, body_style = Some s\<rparr> = Inr (p, s))
       \<and> (length p = 501 \<longrightarrow>
            createGenerationSchema_parse \<lparr>body_prompt = Some p, body_style = Some s\<rparr>
              = Inl (ZodError [''Prompt too long'']))"
proof -
  have len: "(1 \<le> length p \<and> length p \<le> 500) \<longleftrightarrow> (p \<noteq> [] \<and> length p \<le> 500)"
    by (cases p) simp_all
  have parse: "createGenerationSchema_parse \<lparr>body_prompt = Some p, body_style = Some s\<rparr> =
      (if p = [] then Inl (ZodError [''Prompt is required''])
       else if 500 < length p then Inl (ZodError [''Prompt too long''])
       else Inr (p, s))"
    using assms(2) by (simp add: createGenerationSchema_parse_def)
  have ok: "p \<noteq> [] \<and> length p \<le> 500 \<Longrightarrow>
      (\<forall>issues. fst (createGeneration now generationId d (Some ru)
                          \<lparr>body_prompt = Some p, body_style = Some s\<rparr> file)
                     \<noteq> Inl (ZodError issues))"
    using assms(1)
    by (auto simp add: createGeneration_def authenticated_id_def parse Generation_create_def
        Generation_findById_def Let_def db_closed_error_def
        split: option.splits prod.splits sum.splits)
  have bad: "\<not> (p \<noteq> [] \<and> length p \<le> 500) \<Longrightarrow>
      (\<exists>issues. createGeneration now generationId d (Some ru)
                          \<lparr>body_prompt = Some p, body_style = Some s\<rparr> file
                     = (Inl (ZodError issues), d, []))"
    using assms(1)
    by (auto simp add: createGeneration_def authenticated_id_def parse)
  have l500: "length p = 500 \<Longrightarrow> p \<noteq> []" by auto
  have l501: "length p = 501 \<Longrightarrow> p \<noteq> []" by auto
  show ?thesis
    unfolding len using ok bad parse l500 l501 by (auto simp add: )
qed

theorem prompt_validation_witness:
  "createGenerationSchema_parse
      \<lparr>body_prompt = Some (replicate 500 (CHR ''a'')), body_style = Some ''artistic''\<rparr>
     = Inr (replicate 500 (CHR ''a''), ''artistic'')
   \<and> createGenerationSchema_parse
      \<lparr>body_prompt = Some (replicate 501 (CHR ''a'')), body_style = Some ''artistic''\<rparr>
     = Inl (ZodError [''Prompt too long''])
   \<and> snd (createGeneration 500 ''g5'' sample_db (Some as_alice)
            \<lparr>body_prompt = Some (replicate 501 (CHR ''a'')), body_style = Some ''artistic''\<rparr>
            (Some png))
     = (sample_db, [])
   \<and> snd (createGeneration 500 ''g5'' sample_db (Some as_alice)
            \<lparr>body_prompt = Some [], body_style = Some ''artistic''\<rparr> (Some png))
     = (sample_db, [])"
proof -
  have who: "req_uid as_alice \<noteq> 0" by (simp add: as_alice_def)
  have style: "''artistic'' \<in> set STYLES" by (simp add: STYLES_def)
  have a: "length (replicate 500 (CHR ''a'')) = 500" by simp
  have b: "length (replicate 501 (CHR ''a'')) = 501"
          "\<not> (1 \<le> length (replicate 501 (CHR ''a'')) \<and> length (replicate 501 (CHR ''a'')) \<le> 500)"
    by simp_all
  have c: "\<not> (1 \<le> length ([] :: string) \<and> length ([] :: string) \<le> 500)" by simp
  show ?thesis
    using prompt_validation [OF who style, of 500 "''g5''" sample_db "replicate 500 (CHR ''a'')" "Some png"]
      prompt_validation [OF who style, of 500 "''g5''" sample_db "replicate 501 (CHR ''a'')" "Some png"]
      prompt_validation [OF who style, of 500 "''g5''" sample_db "[]" "Some png"]
      a b c
    by blast
qed

lemma parseInt_empty: "parseInt [] = None"
  by (simp add: parseInt_def)

lemma limit_range: "1 \<le> getGenerationsSchema_limit q \<and> getGenerationsSchema_limit q \<le> 20"
  by (simp add: getGenerationsSchema_limit_def split: option.splits)

lemma limit_of_string:
  "getGenerationsSchema_limit (Some s) = (case parseInt s of None \<Rightarrow> 5 | Some i \<Rightarrow> min (max i 1) 20)"
  by (simp add: getGenerationsSchema_limit_def parseInt_empty)

text \<open>The decimal rendering of an integer is read back by \<open>parseInt\<close>.\<close>

lemma digit_char:
  assumes "k < 10"
  shows "is_digit (''0123456789'' ! k) \<and> digit_value (''0123456789'' ! k) = k"
proof -
  from assms have "k \<in> {0, 1, 2, 3, 4, 5, 6, 7, 8, 9}" by auto
  then show ?thesis
    by (auto simp add: is_digit_def digit_value_def)
qed

lemma digit_plain: "is_digit c \<Longrightarrow> \<not> is_space c \<and> c \<noteq> CHR ''-'' \<and> c \<noteq> CHR ''+''"
  by (auto simp add: is_digit_def is_space_def)

lemma show_nat_digits:
  "show_nat n \<noteq> [] \<and> (\<forall>c \<in> set (show_nat n). is_digit c)
   \<and> foldl (\<lambda>a c. 10 * a + digit_value c) 0 (show_nat n) = n"
proof (induction n rule: show_nat.induct)
  case (1 n)
  show ?case
  proof (cases "n < 10")
    case True
    then show ?thesis
      using digit_char [of n] by (simp add: show_nat.simps [of n])
  next
    case False
    have last_digit: "is_digit (''0123456789'' ! (n mod 10))"
      "digit_value (''0123456789'' ! (n mod 10)) = n mod 10"
      using digit_char [of "n mod 10"] by simp_all
    from False 1 have IH: "show_nat (n div 10) \<noteq> []"
      "\<forall>c \<in> set (show_nat (n div 10)). is_digit c"
      "foldl (\<lambda>a c. 10 * a + digit_value c) 0 (show_nat (n div 10)) = n div 10"
      by simp_all
    have eq: "show_nat n = show_nat (n div 10) @ [''0123456789'' ! (n mod 10)]"
      using False by (simp add: show_nat.simps [of n])
    show ?thesis
      unfolding eq using IH last_digit by auto
  qed
qed

lemma parseInt_digits:
  assumes "s \<noteq> []" and "\<forall>c \<in> set s. is_digit c"
  shows "parseInt s = Some (int (foldl (\<lambda>a c. 10 * a + digit_value c) 0 s))"
proof -
  from assms(1) obtain c rest where s: "s = c # rest" by (cases s) auto
  with assms(2) have c: "is_digit c" by simp
  from assms(2) have all: "takeWhile is_digit s = s" by (simp add: takeWhile_eq_all_conv)
  have plain: "\<not> is_space c" "c \<noteq> CHR ''-''" "c \<noteq> CHR ''+''"
    using digit_plain [OF c] by simp_all
  have skip: "dropWhile is_space s = s" using plain(1) by (simp add: s)
  show ?thesis
    unfolding parseInt_def skip Let_def
    using plain(2,3) all assms(1) by (simp add: s)
qed

lemma parseInt_minus_digits:
  assumes "s \<noteq> []" and "\<forall>c \<in> set s. is_digit c"
  shows "parseInt (CHR ''-'' # s) = Some (- int (foldl (\<lambda>a c. 10 * a + digit_value c) 0 s))"
proof -
  from assms(2) have all: "takeWhile is_digit s = s" by (simp add: takeWhile_eq_all_conv)
  have skip: "dropWhile is_space (CHR ''-'' # s) = CHR ''-'' # s"
    by (simp add: is_space_def)
  show ?thesis
    unfolding parseInt_def skip Let_def
    using assms(1) by (simp add: all)
qed

lemma parseInt_show_int: "parseInt (show_int i) = Some i"
proof (cases "i < 0")
  case True
  then show ?thesis
    using parseInt_minus_digits [of "show_nat (nat (- i))"] show_nat_digits [of "nat (- i)"]
    by (simp add: show_int_def)
next
  case False
  then show ?thesis
    using parseInt_digits [of "show_nat (nat i)"] show_nat_digits [of "nat i"]
    by (simp add: show_int_def)
qed

lemma newest_first:
  "sorted_wrt (\<lambda>a b. created_at b \<le> created_at a) (sort_key (\<lambda>g. - int (created_at g)) xs)"
proof -
  have "sorted (map (\<lambda>g. - int (created_at g)) (sort_key (\<lambda>g. - int (created_at g)) xs))"
    by (rule sorted_sort_key)
  then show ?thesis by (simp add: sorted_map)
qed

lemma errorHandler_fails:
  "res_success (errorHandler env e) = False \<and> res_data (errorHandler env e) = NoData"
  by (simp add: errorHandler_def Let_def split_def)

lemma errorHandler_zod:
  assumes "\<not> str_includes (zod_message env (m # ms)) ''UNIQUE constraint failed: users.email''"
    and "\<not> str_includes (zod_message env (m # ms)) ''UNIQUE constraint failed: generations.id''"
    and "\<not> str_includes (zod_message env (m # ms)) ''not found''"
    and "\<not> str_includes (zod_message env (m # ms)) ''Not found''"
  shows "res_status (errorHandler env (ZodError (m # ms))) = 400
       \<and> res_message (errorHandler env (ZodError (m # ms))) = Some m"
  using assms
  by (simp add: errorHandler_def err_statusCode_def err_message_def err_name_of_def)

text \<open>
  The claim that every supplied \<open>limit\<close> gets a listing cut at the clamped value fails for
  a \<open>limit\<close> that is not a string: \<open>z.string()\<close> refuses the array that a repeated key
  makes, the handler throws before it reads the store, and the error handler answers 400
  with no listing at all.
\<close>

theorem repeated_limit_refused:
  "getGenerations sample_env sample_db (Some as_alice) (Some (QArray [QString ''1'', QString ''2'']))
     = Inl (ZodError [''Invalid input: expected string, received array''])
   \<and> respond sample_env
        (getGenerations sample_env sample_db (Some as_alice)
           (Some (QArray [QString ''1'', QString ''2''])))
     = \<lparr>res_status = 400, res_success = False,
        res_message = Some ''Invalid input: expected string, received array'',
        res_data = NoData, res_stack = None\<rparr>
   \<and> getGenerationsSchema_limit (Some ''1'') = 1
   \<and> getGenerationsSchema_limit (Some ''2'') = 2
   \<and> length (filter (\<lambda>g. user_id g = req_uid as_alice) (generations sample_db)) = 3"
  by (simp add: getGenerations_def authenticated_id_def as_alice_def
      getGenerationsSchema_parse_def zod_received_def zod_expected_string_def respond_def
      errorHandler_def err_statusCode_def err_message_def err_name_of_def err_stack_def
      sample_env_def sample_db_def sample_row_def getGenerationsSchema_limit_def parseInt_def
      is_space_def is_digit_def digit_value_def)

text \<open>
  C9, amended. Take a caller the handler accepts as authenticated (a user whose id is not
  0) and a database that answers. When \<open>limit\<close> is missing or a string, listing is
  answered 200 with the views of the first rows of a list that holds the rows of the
  caller and no others, each as often as the table does, newest first by creation time: the
  views sent are in that order, each is the view of a row of the caller, and there are as
  many as the effective limit, or as the caller has rows if those are fewer. The effective
  limit lies between 1 and 20; it is 5 when \<open>limit\<close> is missing; it is the integer raised
  to 1 or lowered to 20 when \<open>limit\<close> is the decimal rendering of an integer; and in
  general it is the number \<open>parseInt\<close> reads from \<open>limit\<close>, clamped in that way, or 5
  when it reads none. When \<open>limit\<close> is an array or an object, the schema refuses it: the
  handler throws a \<open>ZodError\<close>, the response is the error handler's, with no listing, and
  its status is 400 with the message of zod as long as the text of the error holds none of
  the four texts the error handler looks for.
\<close>

theorem getGenerations_listing:
  assumes "\<not> closed d" and "req_uid ru \<noteq> 0"
  shows "((q = None \<or> (\<exists>s. q = Some (QString s))) \<longrightarrow>
            (\<exists>rows n.
                mset rows = mset (filter (\<lambda>g. user_id g = req_uid ru) (generations d))
              \<and> sorted_wrt (\<lambda>a b. created_at b \<le> created_at a) rows
              \<and> getGenerations env d (Some ru) q
                  = Inr \<lparr>res_status = 200, res_success = True, res_message = None,
                         res_data = Generations (map (transform env) (take (nat n) rows))
                                      (length (take (nat n) rows)),
                         res_stack = None\<rparr>
              \<and> sorted_wrt (\<lambda>a b. view_created_at b \<le> view_created_at a)
                   (map (transform env) (take (nat n) rows))
              \<and> (\<forall>v \<in> set (map (transform env) (take (nat n) rows)).
                    \<exists>g \<in> set (generations d). user_id g = req_uid ru \<and> v = transform env g)
              \<and> length (map (transform env) (take (nat n) rows))
                  = min (nat n) (length (filter (\<lambda>g. user_id g = req_uid ru) (generations d)))
              \<and> 1 \<le> n \<and> n \<le> 20
              \<and> (q = None \<longrightarrow> n = 5)
              \<and> (\<forall>i. q = Some (QString (show_int i)) \<longrightarrow> n = min (max i 1) 20)
              \<and> (\<forall>s. q = Some (QString s) \<longrightarrow>
                    n = (case parseInt s of None \<Rightarrow> 5 | Some i \<Rightarrow> min (max i 1) 20))))
       \<and> (\<forall>v. q = Some v \<and> (\<forall>s. v \<noteq> QString s) \<longrightarrow>
             getGenerations env d (Some ru) q
               = Inl (ZodError [zod_expected_string (zod_received v)])
           \<and> respond env (getGenerations env d (Some ru) q)
               = errorHandler env (ZodError [zod_expected_string (zod_received v)])
           \<and> res_success (respond env (getGenerations env d (Some ru) q)) = False
           \<and> res_data (respond env (getGenerations env d (Some ru) q)) = NoData
           \<and> (\<not> str_includes (zod_message env [zod_expected_string (zod_received v)])
                    ''UNIQUE constraint failed: users.email''
                \<and> \<not> str_includes (zod_message env [zod_expected_string (zod_received v)])
                    ''UNIQUE constraint failed: generations.id''
                \<and> \<not> str_includes (zod_message env [zod_expected_string (zod_received v)])
                    ''not found''
                \<and> \<not> str_includes (zod_message env [zod_expected_string (zod_received v)])
                    ''Not found''
                \<longrightarrow> res_status (respond env (getGenerations env d (Some ru) q)) = 400
                  \<and> res_message (respond env (getGenerations env d (Some ru) q))
                      = Some (zod_expected_string (zod_received v))))"
proof -
  define mine where "mine = filter (\<lambda>g. user_id g = req_uid ru) (generations d)"
  define rows where "rows = sort_key (\<lambda>g. - int (created_at g)) mine"
  define n where "n = (case q of Some (QString s) \<Rightarrow> getGenerationsSchema_limit (Some s) | _ \<Rightarrow> 5)"
  define views where "views = map (transform env) (take (nat n) rows)"
  have perm: "mset rows = mset mine" by (simp add: rows_def)
  have sorted_all: "sorted_wrt (\<lambda>a b. created_at b \<le> created_at a) rows"
    unfolding rows_def by (rule newest_first)
  have lim: "1 \<le> n" "n \<le> 20"
    using limit_range by (simp_all add: n_def split: option.splits query_value.splits)
  have absent: "q = None \<longrightarrow> n = 5" by (simp add: n_def)
  have general: "\<forall>s. q = Some (QString s) \<longrightarrow>
                   n = (case parseInt s of None \<Rightarrow> 5 | Some i \<Rightarrow> min (max i 1) 20)"
    by (simp add: n_def limit_of_string)
  have numeral: "\<forall>i. q = Some (QString (show_int i)) \<longrightarrow> n = min (max i 1) 20"
    by (simp add: n_def limit_of_string parseInt_show_int)
  have sorted_views: "sorted_wrt (\<lambda>a b. view_created_at b \<le> view_created_at a) views"
  proof -
    have "sorted_wrt (\<lambda>a b. created_at b \<le> created_at a) (take (nat n) rows)"
      using sorted_all by (rule sorted_wrt_take)
    then show ?thesis
      by (simp add: views_def sorted_wrt_map transform_def)
  qed
  have owned: "\<forall>v \<in> set views. \<exists>g \<in> set (generations d). user_id g = req_uid ru \<and> v = transform env g"
  proof
    fix v assume "v \<in> set views"
    then obtain g where g: "g \<in> set (take (nat n) rows)" "v = transform env g"
      by (auto simp add: views_def)
    from g(1) have "g \<in> set rows" by (rule in_set_takeD)
    then have "g \<in> set mine" by (simp add: rows_def)
    then have "g \<in> set (generations d)" "user_id g = req_uid ru" by (simp_all add: mine_def)
    with g(2) show "\<exists>g \<in> set (generations d). user_id g = req_uid ru \<and> v = transform env g"
      by blast
  qed
  have len: "length views = min (nat n) (length mine)"
    by (simp add: views_def rows_def)
  have listing: "getGenerations env d (Some ru) q
                  = Inr \<lparr>res_status = 200, res_success = True, res_message = None,
                         res_data = Generations views (length (take (nat n) rows)),
                         res_stack = None\<rparr>"
    if "q = None \<or> (\<exists>s. q = Some (QString s))"
  proof -
    from that have parse: "getGenerationsSchema_parse q = Inr n"
      by (auto simp add: getGenerationsSchema_parse_def n_def getGenerationsSchema_limit_def)
    from lim have "\<not> n < 0" by simp
    with assms parse show ?thesis
      by (simp add: getGenerations_def authenticated_id_def Generation_findByUserId_def
          views_def rows_def mine_def Let_def)
  qed
  have first: "(q = None \<or> (\<exists>s. q = Some (QString s))) \<longrightarrow>
            (\<exists>rows n.
                mset rows = mset (filter (\<lambda>g. user_id g = req_uid ru) (generations d))
              \<and> sorted_wrt (\<lambda>a b. created_at b \<le> created_at a) rows
              \<and> getGenerations env d (Some ru) q
                  = Inr \<lparr>res_status = 200, res_success = True, res_message = None,
                         res_data = Generations (map (transform env) (take (nat n) rows))
                                      (length (take (nat n) rows)),
                         res_stack = None\<rparr>
              \<and> sorted_wrt (\<lambda>a b. view_created_at b \<le> view_created_at a)
                   (map (transform env) (take (nat n) rows))
              \<and> (\<forall>v \<in> set (map (transform env) (take (nat n) rows)).
                    \<exists>g \<in> set (generations d). user_id g = req_uid ru \<and> v = transform env g)
              \<and> length (map (transform env) (take (nat n) rows))
                  = min (nat n) (length (filter (\<lambda>g. user_id g = req_uid ru) (generations d)))
              \<and> 1 \<le> n \<and> n \<le> 20
              \<and> (q = None \<longrightarrow> n = 5)
              \<and> (\<forall>i. q = Some (QString (show_int i)) \<longrightarrow> n = min (max i 1) 20)
              \<and> (\<forall>s. q = Some (QString s) \<longrightarrow>
                    n = (case parseInt s of None \<Rightarrow> 5 | Some i \<Rightarrow> min (max i 1) 20)))"
  proof
    assume q: "q = None \<or> (\<exists>s. q = Some (QString s))"
    show "\<exists>rows n.
                mset rows = mset (filter (\<lambda>g. user_id g = req_uid ru) (generations d))
              \<and> sorted_wrt (\<lambda>a b. created_at b \<le> created_at a) rows
              \<and> getGenerations env d (Some ru) q
                  = Inr \<lparr>res_status = 200, res_success = True, res_message = None,
                         res_data = Generations (map (transform env) (take (nat n) rows))
                                      (length (take (nat n) rows)),
                         res_stack = None\<rparr>
              \<and> sorted_wrt (\<lambda>a b. view_created_at b \<le> view_created_at a)
                   (map (transform env) (take (nat n) rows))
              \<and> (\<forall>v \<in> set (map (transform env) (take (nat n) rows)).
                    \<exists>g \<in> set (generations d). user_id g = req_uid ru \<and> v = transform env g)
              \<and> length (map (transform env) (take (nat n) rows))
                  = min (nat n) (length (filter (\<lambda>g. user_id g = req_uid ru) (generations d)))
              \<and> 1 \<le> n \<and> n \<le> 20
              \<and> (q = None \<longrightarrow> n = 5)
              \<and> (\<forall>i. q = Some (QString (show_int i)) \<longrightarrow> n = min (max i 1) 20)
              \<and> (\<forall>s. q = Some (QString s) \<longrightarrow>
                    n = (case parseInt s of None \<Rightarrow> 5 | Some i \<Rightarrow> min (max i 1) 20))"
      apply (rule exI [of _ rows], rule exI [of _ n])
      using perm sorted_all listing [OF q] sorted_views owned len lim absent numeral general
      unfolding views_def mine_def
      by (intro conjI) assumption+
  qed
  have second: "\<forall>v. q = Some v \<and> (\<forall>s. v \<noteq> QString s) \<longrightarrow>
             getGenerations env d (Some ru) q
               = Inl (ZodError [zod_expected_string (zod_received v)])
           \<and> respond env (getGenerations env d (Some ru) q)
               = errorHandler env (ZodError [zod_expected_string (zod_received v)])
           \<and> res_success (respond env (getGenerations env d (Some ru) q)) = False
           \<and> res_data (respond env (getGenerations env d (Some ru) q)) = NoData
           \<and> (\<not> str_includes (zod_message env [zod_expected_string (zod_received v)])
                    ''UNIQUE constraint failed: users.email''
                \<and> \<not> str_includes (zod_message env [zod_expected_string (zod_received v)])
                    ''UNIQUE constraint failed: generations.id''
                \<and> \<not> str_includes (zod_message env [zod_expected_string (zod_received v)])
                    ''not found''
                \<and> \<not> str_includes (zod_message env [zod_expected_string (zod_received v)])
                    ''Not found''
                \<longrightarrow> res_status (respond env (getGenerations env d (Some ru) q)) = 400
                  \<and> res_message (respond env (getGenerations env d (Some ru) q))
                      = Some (zod_expected_string (zod_received v)))"
  proof (intro allI impI)
    fix v assume v: "q = Some v \<and> (\<forall>s. v \<noteq> QString s)"
    then have parse: "getGenerationsSchema_parse q
                        = Inl (ZodError [zod_expected_string (zod_received v)])"
      by (cases v) (simp_all add: getGenerationsSchema_parse_def)
    with assms have thrown: "getGenerations env d (Some ru) q
               = Inl (ZodError [zod_expected_string (zod_received v)])"
      by (simp add: getGenerations_def authenticated_id_def)
    show "getGenerations env d (Some ru) q
               = Inl (ZodError [zod_expected_string (zod_received v)])
           \<and> respond env (getGenerations env d (Some ru) q)
               = errorHandler env (ZodError [zod_expected_string (zod_received v)])
           \<and> res_success (respond env (getGenerations env d (Some ru) q)) = False
           \<and> res_data (respond env (getGenerations env d (Some ru) q)) = NoData
           \<and> (\<not> str_includes (zod_message env [zod_expected_string (zod_received v)])
                    ''UNIQUE constraint failed: users.email''
                \<and> \<not> str_includes (zod_message env [zod_expected_string (zod_received v)])
                    ''UNIQUE constraint failed: generations.id''
                \<and> \<not> str_includes (zod_message env [zod_expected_string (zod_received v)])
                    ''not found''
                \<and> \<not> str_includes (zod_message env [zod_expected_string (zod_received v)])
                    ''Not found''
                \<longrightarrow> res_status (respond env (getGenerations env d (Some ru) q)) = 400
                  \<and> res_message (respond env (getGenerations env d (Some ru) q))
                      = Some (zod_expected_string (zod_received v)))"
      using errorHandler_fails [of env "ZodError [zod_expected_string (zod_received v)]"]
        errorHandler_zod [of env "zod_expected_string (zod_received v)" "[]"]
      by (simp add: thrown respond_def)
  qed
  from first second show ?thesis by (rule conjI)
qed

lemma parseInt_examples:
  "parseInt ''2'' = Some 2" "parseInt ''100'' = Some 100" "parseInt ''0'' = Some 0"
  "parseInt ''-3'' = Some (- 3)" "parseInt ''abc'' = None" "parseInt '' 12px'' = Some 12"
  "parseInt [CHR 0xA0, CHR ''7''] = Some 7"
  by (simp_all add: parseInt_def is_space_def is_digit_def digit_value_def)

lemma show_int_examples: "show_int 7 = ''7''" "show_int 100 = ''100''" "show_int (- 3) = ''-3''"
  by (simp_all add: show_int_def show_nat.simps)

theorem getGenerations_listing_witness:
  "getGenerations sample_env sample_db (Some as_alice) (Some (QString ''2''))
     = Inr \<lparr>res_status = 200, res_success = True, res_message = None,
            res_data = Generations
                         (map (transform sample_env)
                            [sample_row ''g3'' 1 300, sample_row ''g4'' 1 200]) 2,
            res_stack = None\<rparr>
   \<and> (\<exists>rows. mset rows = mset (filter (\<lambda>g. user_id g = 1) (generations sample_db))
          \<and> sorted_wrt (\<lambda>a b. created_at b \<le> created_at a) rows
          \<and> getGenerations sample_env sample_db (Some as_alice) (Some (QString ''2''))
              = Inr \<lparr>res_status = 200, res_success = True, res_message = None,
                     res_data = Generations (map (transform sample_env) (take 2 rows)) 2,
                     res_stack = None\<rparr>)
   \<and> (\<exists>rows. mset rows = mset (filter (\<lambda>g. user_id g = 1) (generations sample_db))
          \<and> getGenerations sample_env sample_db (Some as_alice) None
              = Inr \<lparr>res_status = 200, res_success = True, res_message = None,
                     res_data = Generations (map (transform sample_env) (take 5 rows)) 3,
                     res_stack = None\<rparr>)
   \<and> (\<exists>rows. getGenerations sample_env sample_db (Some as_alice) (Some (QString ''100''))
              = Inr \<lparr>res_status = 200, res_success = True, res_message = None,
                     res_data = Generations (map (transform sample_env) (take 20 rows)) 3,
                     res_stack = None\<rparr>)
   \<and> (\<exists>rows. getGenerations sample_env sample_db (Some as_alice) (Some (QString ''-3''))
              = Inr \<lparr>res_status = 200, res_success = True, res_message = None,
                     res_data = Generations (map (transform sample_env) (take 1 rows)) 1,
                     res_stack = None\<rparr>)
   \<and> (\<exists>rows. getGenerations sample_env sample_db (Some as_alice)
                (Some (QString [CHR 0xA0, CHR ''7'']))
              = Inr \<lparr>res_status = 200, res_success = True, res_message = None,
                     res_data = Generations (map (transform sample_env) (take 7 rows)) 3,
                     res_stack = None\<rparr>)
   \<and> getGenerations sample_env sample_db (Some as_alice) (Some (QObject [(''a'', QString ''1'')]))
       = Inl (ZodError [''Invalid input: expected string, received object''])
   \<and> res_success (respond sample_env (getGenerations sample_env sample_db (Some as_alice)
                     (Some (QObject [(''a'', QString ''1'')])))) = False
   \<and> res_status (respond sample_env (getGenerations sample_env sample_db (Some as_alice)
                     (Some (QObject [(''a'', QString ''1'')])))) = 400"
proof -
  have open_db: "\<not> closed sample_db" by (simp add: sample_db_def)
  have who: "req_uid as_alice \<noteq> 0" by (simp add: as_alice_def)
  have me: "req_uid as_alice = 1" by (simp add: as_alice_def)
  have mine: "length (filter (\<lambda>g. user_id g = req_uid as_alice) (generations sample_db)) = 3"
    by (simp add: sample_db_def sample_row_def as_alice_def)
  have direct: "getGenerations sample_env sample_db (Some as_alice) (Some (QString ''2''))
     = Inr \<lparr>res_status = 200, res_success = True, res_message = None,
            res_data = Generations
                         (map (transform sample_env)
                            [sample_row ''g3'' 1 300, sample_row ''g4'' 1 200]) 2,
            res_stack = None\<rparr>"
    by (simp add: getGenerations_def authenticated_id_def as_alice_def
        getGenerationsSchema_parse_def getGenerationsSchema_limit_def parseInt_examples
        Generation_findByUserId_def sample_db_def sample_row_def Let_def)
  note two = getGenerations_listing [OF open_db who, where q = "Some (QString ''2'')"
      and env = sample_env]
  note none = getGenerations_listing [OF open_db who, where q = None and env = sample_env]
  note hundred = getGenerations_listing [OF open_db who, where q = "Some (QString ''100'')"
      and env = sample_env]
  note minus = getGenerations_listing [OF open_db who, where q = "Some (QString ''-3'')"
      and env = sample_env]
  note nbsp = getGenerations_listing [OF open_db who,
      where q = "Some (QString [CHR 0xA0, CHR ''7''])" and env = sample_env]
  note object = getGenerations_listing [OF open_db who,
      where q = "Some (QObject [(''a'', QString ''1'')])" and env = sample_env]
  have a: "\<exists>rows. mset rows = mset (filter (\<lambda>g. user_id g = 1) (generations sample_db))
          \<and> sorted_wrt (\<lambda>a b. created_at b \<le> created_at a) rows
          \<and> getGenerations sample_env sample_db (Some as_alice) (Some (QString ''2''))
              = Inr \<lparr>res_status = 200, res_success = True, res_message = None,
                     res_data = Generations (map (transform sample_env) (take 2 rows)) 2,
                     res_stack = None\<rparr>"
  proof -
    from two obtain rows n where r:
      "mset rows = mset (filter (\<lambda>g. user_id g = req_uid as_alice) (generations sample_db))"
      "sorted_wrt (\<lambda>a b. created_at b \<le> created_at a) rows"
      "getGenerations sample_env sample_db (Some as_alice) (Some (QString ''2''))
         = Inr \<lparr>res_status = 200, res_success = True, res_message = None,
                res_data = Generations (map (transform sample_env) (take (nat n) rows))
                             (length (take (nat n) rows)),
                res_stack = None\<rparr>"
      "length (map (transform sample_env) (take (nat n) rows))
         = min (nat n) (length (filter (\<lambda>g. user_id g = req_uid as_alice) (generations sample_db)))"
      "\<forall>s. Some (QString ''2'') = Some (QString s) \<longrightarrow>
             n = (case parseInt s of None \<Rightarrow> 5 | Some i \<Rightarrow> min (max i 1) 20)"
      by blast
    from r(5) have n: "n = 2" by (simp add: parseInt_examples)
    from r(4) have "length (take (nat n) rows) = 2" by (simp add: n mine)
    with r(1,2,3) show ?thesis by (intro exI [of _ rows]) (simp add: n me)
  qed
  have b: "\<exists>rows. mset rows = mset (filter (\<lambda>g. user_id g = 1) (generations sample_db))
          \<and> getGenerations sample_env sample_db (Some as_alice) None
              = Inr \<lparr>res_status = 200, res_success = True, res_message = None,
                     res_data = Generations (map (transform sample_env) (take 5 rows)) 3,
                     res_stack = None\<rparr>"
  proof -
    from none obtain rows n where r:
      "mset rows = mset (filter (\<lambda>g. user_id g = req_uid as_alice) (generations sample_db))"
      "getGenerations sample_env sample_db (Some as_alice) None
         = Inr \<lparr>res_status = 200, res_success = True, res_message = None,
                res_data = Generations (map (transform sample_env) (take (nat n) rows))
                             (length (take (nat n) rows)),
                res_stack = None\<rparr>"
      "length (map (transform sample_env) (take (nat n) rows))
         = min (nat n) (length (filter (\<lambda>g. user_id g = req_uid as_alice) (generations sample_db)))"
      "n = 5"
      by blast
    from r(3) have "length (take (nat n) rows) = 3" by (simp add: r(4) mine)
    with r(1,2) show ?thesis by (intro exI [of _ rows]) (simp add: r(4) me)
  qed
  have c: "\<exists>rows. getGenerations sample_env sample_db (Some as_alice) (Some (QString ''100''))
              = Inr \<lparr>res_status = 200, res_success = True, res_message = None,
                     res_data = Generations (map (transform sample_env) (take 20 rows)) 3,
                     res_stack = None\<rparr>"
  proof -
    from hundred obtain rows n where r:
      "getGenerations sample_env sample_db (Some as_alice) (Some (QString ''100''))
         = Inr \<lparr>res_status = 200, res_success = True, res_message = None,
                res_data = Generations (map (transform sample_env) (take (nat n) rows))
                             (length (take (nat n) rows)),
                res_stack = None\<rparr>"
      "length (map (transform sample_env) (take (nat n) rows))
         = min (nat n) (length (filter (\<lambda>g. user_id g = req_uid as_alice) (generations sample_db)))"
      "\<forall>i. Some (QString ''100'') = Some (QString (show_int i)) \<longrightarrow> n = min (max i 1) 20"
      by blast
    from r(3) [rule_format, of 100] have n: "n = 20" by (simp add: show_int_examples)
    from r(2) have "length (take (nat n) rows) = 3" by (simp add: n mine)
    with r(1) show ?thesis by (intro exI [of _ rows]) (simp add: n)
  qed
  have d: "\<exists>rows. getGenerations sample_env sample_db (Some as_alice) (Some (QString ''-3''))
              = Inr \<lparr>res_status = 200, res_success = True, res_message = None,
                     res_data = Generations (map (transform sample_env) (take 1 rows)) 1,
                     res_stack = None\<rparr>"
  proof -
    from minus obtain rows n where r:
      "getGenerations sample_env sample_db (Some as_alice) (Some (QString ''-3''))
         = Inr \<lparr>res_status = 200, res_success = True, res_message = None,
                res_data = Generations (map (transform sample_env) (take (nat n) rows))
                             (length (take (nat n) rows)),
                res_stack = None\<rparr>"
      "length (map (transform sample_env) (take (nat n) rows))
         = min (nat n) (length (filter (\<lambda>g. user_id g = req_uid as_alice) (generations sample_db)))"
      "\<forall>i. Some (QString ''-3'') = Some (QString (show_int i)) \<longrightarrow> n = min (max i 1) 20"
      by blast
    from r(3) [rule_format, of "- 3"] have n: "n = 1" by (simp add: show_int_examples)
    from r(2) have "length (take (nat n) rows) = 1" by (simp add: n mine)
    with r(1) show ?thesis by (intro exI [of _ rows]) (simp add: n)
  qed
  have e: "\<exists>rows. getGenerations sample_env sample_db (Some as_alice)
                (Some (QString [CHR 0xA0, CHR ''7'']))
              = Inr \<lparr>res_status = 200, res_success = True, res_message = None,
                     res_data = Generations (map (transform sample_env) (take 7 rows)) 3,
                     res_stack = None\<rparr>"
  proof -
    from nbsp obtain rows n where r:
      "getGenerations sample_env sample_db (Some as_alice) (Some (QString [CHR 0xA0, CHR ''7'']))
         = Inr \<lparr>res_status = 200, res_success = True, res_message = None,
                res_data = Generations (map (transform sample_env) (take (nat n) rows))
                             (length (take (nat n) rows)),
                res_stack = None\<rparr>"
      "length (map (transform sample_env) (take (nat n) rows))
         = min (nat n) (length (filter (\<lambda>g. user_id g = req_uid as_alice) (generations sample_db)))"
      "\<forall>s. Some (QString [CHR 0xA0, CHR ''7'']) = Some (QString s) \<longrightarrow>
             n = (case parseInt s of None \<Rightarrow> 5 | Some i \<Rightarrow> min (max i 1) 20)"
      by blast
    from r(3) have n: "n = 7" by (simp add: parseInt_examples)
    from r(2) have "length (take (nat n) rows) = 3" by (simp add: n mine)
    with r(1) show ?thesis by (intro exI [of _ rows]) (simp add: n)
  qed
  have f: "getGenerations sample_env sample_db (Some as_alice) (Some (QObject [(''a'', QString ''1'')]))
       = Inl (ZodError [''Invalid input: expected string, received object''])"
    "res_success (respond sample_env (getGenerations sample_env sample_db (Some as_alice)
                     (Some (QObject [(''a'', QString ''1'')])))) = False"
    "res_status (respond sample_env (getGenerations sample_env sample_db (Some as_alice)
                     (Some (QObject [(''a'', QString ''1'')])))) = 400"
  proof -
    have refused: "getGenerations sample_env sample_db (Some as_alice)
               (Some (QObject [(''a'', QString ''1'')]))
             = Inl (ZodError [zod_expected_string (zod_received (QObject [(''a'', QString ''1'')]))])
           \<and> respond sample_env (getGenerations sample_env sample_db (Some as_alice)
                 (Some (QObject [(''a'', QString ''1'')])))
             = errorHandler sample_env
                 (ZodError [zod_expected_string (zod_received (QObject [(''a'', QString ''1'')]))])
           \<and> res_success (respond sample_env (getGenerations sample_env sample_db (Some as_alice)
                 (Some (QObject [(''a'', QString ''1'')])))) = False
           \<and> res_data (respond sample_env (getGenerations sample_env sample_db (Some as_alice)
                 (Some (QObject [(''a'', QString ''1'')])))) = NoData
           \<and> (\<not> str_includes (zod_message sample_env
                      [zod_expected_string (zod_received (QObject [(''a'', QString ''1'')]))])
                    ''UNIQUE constraint failed: users.email''
                \<and> \<not> str_includes (zod_message sample_env
                      [zod_expected_string (zod_received (QObject [(''a'', QString ''1'')]))])
                    ''UNIQUE constraint failed: generations.id''
                \<and> \<not> str_includes (zod_message sample_env
                      [zod_expected_string (zod_received (QObject [(''a'', QString ''1'')]))])
                    ''not found''
                \<and> \<not> str_includes (zod_message sample_env
                      [zod_expected_string (zod_received (QObject [(''a'', QString ''1'')]))])
                    ''Not found''
                \<longrightarrow> res_status (respond sample_env (getGenerations sample_env sample_db
                      (Some as_alice) (Some (QObject [(''a'', QString ''1'')])))) = 400
                  \<and> res_message (respond sample_env (getGenerations sample_env sample_db
                      (Some as_alice) (Some (QObject [(''a'', QString ''1'')]))))
                      = Some (zod_expected_string (zod_received (QObject [(''a'', QString ''1'')]))))"
      by (rule object [THEN conjunct2, rule_format, of "QObject [(''a'', QString ''1'')]"]) simp
    have plain: "\<not> str_includes (zod_message sample_env
                      [''Invalid input: expected string, received object''])
                    ''UNIQUE constraint failed: users.email''"
      "\<not> str_includes (zod_message sample_env
                      [''Invalid input: expected string, received object''])
                    ''UNIQUE constraint failed: generations.id''"
      "\<not> str_includes (zod_message sample_env
                      [''Invalid input: expected string, received object''])
                    ''not found''"
      "\<not> str_includes (zod_message sample_env
                      [''Invalid input: expected string, received object''])
                    ''Not found''"
      by (simp_all add: sample_env_def)
    have wording: "zod_expected_string (zod_received (QObject [(''a'', QString ''1'')]))
                  = ''Invalid input: expected string, received object''"
      by (simp add: zod_received_def zod_expected_string_def)
    from refused show "getGenerations sample_env sample_db (Some as_alice)
               (Some (QObject [(''a'', QString ''1'')]))
             = Inl (ZodError [''Invalid input: expected string, received object''])"
      unfolding wording by blast
    from refused show "res_success (respond sample_env (getGenerations sample_env sample_db
               (Some as_alice) (Some (QObject [(''a'', QString ''1'')])))) = False"
      by blast
    from refused plain show "res_status (respond sample_env (getGenerations sample_env sample_db
               (Some as_alice) (Some (QObject [(''a'', QString ''1'')])))) = 400"
      unfolding wording by blast
  qed
  from direct a b c d e f show ?thesis by (intro conjI)
qed

section \<open>Properties of the job processor\<close>

lemma find_updated:
  "find (\<lambda>g. gen_id g = i)
        (map (\<lambda>g. if gen_id g = i then g\<lparr>status := st, result_image_path := r\<rparr> else g) xs)
     = map_option (\<lambda>g. g\<lparr>status := st, result_image_path := r\<rparr>) (find (\<lambda>g. gen_id g = i) xs)"
  by (induction xs) simp_all

lemma find_Some_in: "find P xs = Some x \<Longrightarrow> x \<in> set xs \<and> P x"
  by (induction xs) (auto split: if_splits)

lemma updateStatus_present:
  assumes "\<not> closed d" and "find (\<lambda>g. gen_id g = i) (generations d) = Some g"
  shows "Generation_updateStatus d i st rp =
           (Inr (g\<lparr>status := st, result_image_path := or_null rp\<rparr>),
            d\<lparr>generations :=
                 map (\<lambda>g. if gen_id g = i then g\<lparr>status := st, result_image_path := or_null rp\<rparr>
                           else g)
                     (generations d)\<rparr>)"
proof -
  from assms(2) have "\<exists>g \<in> set (generations d). gen_id g = i"
    by (auto dest: find_Some_in)
  with assms show ?thesis
    by (simp add: Generation_updateStatus_def Generation_findById_def find_updated Let_def)
qed

lemma updateStatus_closed:
  "closed d \<Longrightarrow> Generation_updateStatus d i st rp = (Inl db_closed_error, d)"
  by (simp add: Generation_updateStatus_def)

lemma updateStatus_absent:
  "\<not> closed d \<Longrightarrow> \<not> (\<exists>g \<in> set (generations d). gen_id g = i) \<Longrightarrow>
     Generation_updateStatus d i st rp = (Inl (Error ''Error'' ''Generation not found'' 193), d)"
  by (simp add: Generation_updateStatus_def)

text \<open>
  When the store refuses every update of the job with the same error, the \<open>try\<close> block
  throws whatever it is given, and the update in the \<open>catch\<close> block is refused in turn.
\<close>

lemma processGeneration_refused:
  assumes "\<And>st rp. Generation_updateStatus d i st rp = (Inl e, d)"
  shows "processGeneration env result copy_error i orig d
           = (if NODE_ENV env \<noteq> ''test'' then Some e else None, d)"
proof -
  have "\<exists>x. processGeneration_try env result copy_error i orig d = (Some x, d)"
    by (simp add: processGeneration_try_def Let_def assms
        split: bool.splits option.splits)
  then obtain x where "processGeneration_try env result copy_error i orig d = (Some x, d)" ..
  then show ?thesis
    by (simp add: processGeneration_def assms)
qed

lemma processGeneration_test_copy:
  assumes "NODE_ENV env = ''test''" and "sim_success result"
    and "or_null (resultPath result) \<noteq> None" and "copy_error \<noteq> None"
  shows "processGeneration env result copy_error i orig d = (None, d)"
  using assms
  by (auto simp add: processGeneration_def processGeneration_try_def Let_def)

lemma processGeneration_outcome:
  assumes "NODE_ENV env \<noteq> ''test''
           \<or> \<not> (sim_success result \<and> or_null (resultPath result) \<noteq> None \<and> copy_error \<noteq> None)"
    and "\<not> closed d"
    and "find (\<lambda>g. gen_id g = i) (generations d) = Some g"
  shows "processGeneration env result copy_error i orig d =
           (None,
            d\<lparr>generations :=
                 map (\<lambda>g. if gen_id g = i
                           then (case (sim_success result, or_null (resultPath result), copy_error) of
                                   (True, Some name, None) \<Rightarrow>
                                     g\<lparr>status := Completed,
                                       result_image_path :=
                                         or_null (Some (path_join env (path_dirname env orig) name))\<rparr>
                                 | _ \<Rightarrow> g\<lparr>status := Failed, result_image_path := None\<rparr>)
                           else g)
                     (generations d)\<rparr>)"
proof -
  have failed: "Generation_updateStatus d i Failed None =
      (Inr (g\<lparr>status := Failed, result_image_path := None\<rparr>),
       d\<lparr>generations := map (\<lambda>g. if gen_id g = i
                                   then g\<lparr>status := Failed, result_image_path := None\<rparr> else g)
                              (generations d)\<rparr>)"
    using updateStatus_present [OF assms(2,3), of Failed None] by (simp add: or_null_def)
  show ?thesis
  proof (cases "sim_success result")
    case False
    then show ?thesis
      by (simp add: processGeneration_def processGeneration_try_def failed)
  next
    case success: True
    show ?thesis
    proof (cases "or_null (resultPath result)")
      case None
      with success show ?thesis
        by (simp add: processGeneration_def processGeneration_try_def failed)
    next
      case (Some name)
      show ?thesis
      proof (cases copy_error)
        case None
        have "Generation_updateStatus d i Completed
                (Some (path_join env (path_dirname env orig) name)) =
              (Inr (g\<lparr>status := Completed,
                      result_image_path :=
                        or_null (Some (path_join env (path_dirname env orig) name))\<rparr>),
               d\<lparr>generations :=
                    map (\<lambda>g. if gen_id g = i
                              then g\<lparr>status := Completed,
                                     result_image_path :=
                                       or_null (Some (path_join env (path_dirname env orig) name))\<rparr>
                              else g)
                        (generations d)\<rparr>)"
          by (rule updateStatus_present [OF assms(2,3)])
        with success Some None show ?thesis
          by (simp add: processGeneration_def processGeneration_try_def Let_def)
      next
        case (Some e)
        with success \<open>or_null (resultPath result) = Some name\<close> assms(1)
        have "NODE_ENV env \<noteq> ''test''" by simp
        with Some success \<open>or_null (resultPath result) = Some name\<close> show ?thesis
          by (simp add: processGeneration_def processGeneration_try_def Let_def failed)
      qed
    qed
  qed
qed

lemma find_marked:
  assumes "\<And>g. gen_id (f g) = gen_id g"
  shows "find (\<lambda>g. gen_id g = i) (map (\<lambda>g. if gen_id g = i then f g else g) xs)
           = map_option f (find (\<lambda>g. gen_id g = i) xs)"
  by (induction xs) (simp_all add: assms)

lemma held_found:
  "(\<exists>g \<in> set xs. gen_id g = i) \<Longrightarrow> \<exists>g. find (\<lambda>g. gen_id g = i) xs = Some g"
  by (induction xs) auto

text \<open>
  The claim that the processor writes the status failed after every internal error, so
  that no job stays processing, fails in two ways. Under \<open>NODE_ENV = test\<close> the \<open>catch\<close>
  block writes nothing: a job whose copy step fails is left as it was, still processing,
  and the processor resolves. Outside test mode, when the database does not answer, the
  update in the \<open>catch\<close> block fails as the one before it did: a job that was created
  before the connection closed is still processing after its task has finished, and the
  processor rejects with the error of the database, which the \<open>catch\<close> of
  \<open>createGeneration\<close> hands to \<open>console.error\<close>.
\<close>

theorem job_left_processing:
  "NODE_ENV testing = ''test''
   \<and> map gen_id (generations sample_db) = [''g1'', ''g2'', ''g3'', ''g4'']
   \<and> processGeneration testing \<lparr>sim_success = True, resultPath = Some ''result_1.jpg''\<rparr>
        (Some (Error ''Error'' ''ENOENT: no such file or directory'' 0)) ''g1'' ''uploads/cat.png''
        sample_db
       = (None, sample_db)
   \<and> map status (generations sample_db) = [Processing, Processing, Processing, Processing]
   \<and> NODE_ENV sample_env = ''production''
   \<and> processGeneration sample_env \<lparr>sim_success = False, resultPath = None\<rparr> None ''g1''
        ''uploads/cat.png'' (sample_db\<lparr>closed := True\<rparr>)
       = (Some db_closed_error, sample_db\<lparr>closed := True\<rparr>)
   \<and> map (\<lambda>g. (gen_id g, status g))
        (generations (store (server_run sample_env
           [PostGeneration (Some as_alice) cat_body (Some png) ''j1'' 100,
            Connection False,
            TaskFinishes 0 \<lparr>sim_success = False, resultPath = None\<rparr> None]
           (boot [alice]))))
       = [(''j1'', Processing)]
   \<and> tasks (server_run sample_env
           [PostGeneration (Some as_alice) cat_body (Some png) ''j1'' 100,
            Connection False,
            TaskFinishes 0 \<lparr>sim_success = False, resultPath = None\<rparr> None]
           (boot [alice])) = []
   \<and> console (server_run sample_env
           [PostGeneration (Some as_alice) cat_body (Some png) ''j1'' 100,
            Connection False,
            TaskFinishes 0 \<lparr>sim_success = False, resultPath = None\<rparr> None]
           (boot [alice])) = [db_closed_error]"
proof -
  have test_mode: "NODE_ENV testing = ''test''
     \<and> map gen_id (generations sample_db) = [''g1'', ''g2'', ''g3'', ''g4'']
     \<and> processGeneration testing \<lparr>sim_success = True, resultPath = Some ''result_1.jpg''\<rparr>
          (Some (Error ''Error'' ''ENOENT: no such file or directory'' 0)) ''g1''
          ''uploads/cat.png'' sample_db
         = (None, sample_db)
     \<and> map status (generations sample_db) = [Processing, Processing, Processing, Processing]"
    by (simp add: testing_def sample_env_def processGeneration_def processGeneration_try_def
        or_null_def sample_db_def sample_row_def)
  have production: "NODE_ENV sample_env = ''production''" by (simp add: sample_env_def)
  have shut: "processGeneration sample_env \<lparr>sim_success = False, resultPath = None\<rparr> None ''g1''
        ''uploads/cat.png'' (sample_db\<lparr>closed := True\<rparr>)
       = (Some db_closed_error, sample_db\<lparr>closed := True\<rparr>)"
    by (simp add: production processGeneration_def processGeneration_try_def
        Generation_updateStatus_def)
  have run: "server_run sample_env
           [PostGeneration (Some as_alice) cat_body (Some png) ''j1'' 100,
            Connection False,
            TaskFinishes 0 \<lparr>sim_success = False, resultPath = None\<rparr> None]
           (boot [alice])
       = \<lparr>store = \<lparr>users = [alice],
                    generations = [\<lparr>gen_id = ''j1'', user_id = 1, gen_prompt = ''a cat'',
                                    gen_style = ''cartoon'', image_path = Some ''uploads/cat.png'',
                                    result_image_path = None, status = Processing,
                                    created_at = 100\<rparr>],
                    closed = True\<rparr>,
          tasks = [], console = [db_closed_error]\<rparr>"
    by (simp add: server_run_def boot_def createGeneration_def authenticated_id_def
        as_alice_def cat_body_def createGenerationSchema_parse_def STYLES_def
        validateImageFile_def png_def Generation_create_def Generation_findById_def or_null_def
        Let_def processGeneration_def processGeneration_try_def Generation_updateStatus_def
        sample_env_def)
  show ?thesis
    unfolding run using test_mode production shut by simp
qed

text \<open>
  C3, amended. A background task of the server finishes, whatever \<open>simulateProcessing\<close>
  resolved to and whether or not the copy failed. When the database answers and holds the
  job, and the environment is not test or the copy did not fail, the processor resolves
  and leaves the job in a terminal status: failed with no result path when the copy failed
  or the simulation did, completed otherwise, and no row with the job's id is left
  processing. Under \<open>NODE_ENV = test\<close> the processor resolves as well, and when something
  was thrown (the database did not answer, or had no such job, or the copy failed) the
  store is left as it was. Outside test mode, when the database does not answer or has no
  such job, the store is left as it was and the processor rejects, with the error of the
  database. In every case the server goes on: the task is off its list, the store is the
  one the processor left, and the \<open>catch\<close> that \<open>createGeneration\<close> put on the task has
  handed the error the processor rejected with to \<open>console.error\<close>, and nothing when it
  resolved.
\<close>

theorem processor_marks_failed:
  assumes "k < length (tasks s)" and "tasks s ! k = (i, orig)"
    and "processGeneration env result copy_error i orig (store s) = (rejected, d')"
  shows "(\<not> closed (store s) \<and> (\<exists>g \<in> set (generations (store s)). gen_id g = i)
          \<and> (NODE_ENV env \<noteq> ''test''
               \<or> \<not> (sim_success result \<and> or_null (resultPath result) \<noteq> None
                      \<and> copy_error \<noteq> None)) \<longrightarrow>
            rejected = None
          \<and> (\<exists>g'. find (\<lambda>g. gen_id g = i) (generations d') = Some g'
                \<and> status g' \<noteq> Processing
                \<and> (copy_error \<noteq> None \<or> \<not> sim_success result
                       \<or> or_null (resultPath result) = None
                     \<longrightarrow> status g' = Failed \<and> result_image_path g' = None)
                \<and> (copy_error = None \<and> sim_success result
                       \<and> or_null (resultPath result) \<noteq> None
                     \<longrightarrow> status g' = Completed))
          \<and> (\<forall>g' \<in> set (generations d'). gen_id g' = i \<longrightarrow> status g' \<noteq> Processing))
       \<and> (NODE_ENV env = ''test'' \<longrightarrow>
            rejected = None
          \<and> (closed (store s) \<or> \<not> (\<exists>g \<in> set (generations (store s)). gen_id g = i)
               \<or> (sim_success result \<and> or_null (resultPath result) \<noteq> None
                    \<and> copy_error \<noteq> None)
              \<longrightarrow> d' = store s))
       \<and> (NODE_ENV env \<noteq> ''test'' \<and> closed (store s) \<longrightarrow>
            rejected = Some db_closed_error \<and> d' = store s)
       \<and> (NODE_ENV env \<noteq> ''test'' \<and> \<not> closed (store s)
            \<and> \<not> (\<exists>g \<in> set (generations (store s)). gen_id g = i) \<longrightarrow>
            rejected = Some (Error ''Error'' ''Generation not found'' 193) \<and> d' = store s)
       \<and> server_step env (TaskFinishes k result copy_error) s
           = \<lparr>store = d', tasks = take k (tasks s) @ drop (Suc k) (tasks s),
              console = console s @ (case rejected of None \<Rightarrow> [] | Some e \<Rightarrow> [e])\<rparr>"
proof -
  define f where "f = (\<lambda>g::generation.
      case (sim_success result, or_null (resultPath result), copy_error) of
        (True, Some name, None) \<Rightarrow>
          g\<lparr>status := Completed,
            result_image_path := or_null (Some (path_join env (path_dirname env orig) name))\<rparr>
      | _ \<Rightarrow> g\<lparr>status := Failed, result_image_path := None\<rparr>)"
  define d where "d = store s"
  note P = assms(3) [folded d_def]
  have keeps: "gen_id (f g) = gen_id g" for g
    by (simp add: f_def split: bool.splits option.splits)
  have final: "status (f g) \<noteq> Processing" for g
    by (simp add: f_def split: bool.splits option.splits)
  have failure: "copy_error \<noteq> None \<or> \<not> sim_success result \<or> or_null (resultPath result) = None
                 \<Longrightarrow> status (f g) = Failed \<and> result_image_path (f g) = None" for g
    by (auto simp add: f_def split: bool.splits option.splits)
  have success: "copy_error = None \<and> sim_success result \<and> or_null (resultPath result) \<noteq> None
                 \<Longrightarrow> status (f g) = Completed" for g
    by (auto simp add: f_def split: bool.splits option.splits)
  have written: "rejected = None
          \<and> (\<exists>g'. find (\<lambda>g. gen_id g = i) (generations d') = Some g'
                \<and> status g' \<noteq> Processing
                \<and> (copy_error \<noteq> None \<or> \<not> sim_success result
                       \<or> or_null (resultPath result) = None
                     \<longrightarrow> status g' = Failed \<and> result_image_path g' = None)
                \<and> (copy_error = None \<and> sim_success result
                       \<and> or_null (resultPath result) \<noteq> None
                     \<longrightarrow> status g' = Completed))
          \<and> (\<forall>g' \<in> set (generations d'). gen_id g' = i \<longrightarrow> status g' \<noteq> Processing)"
    if "\<not> closed d \<and> (\<exists>g \<in> set (generations d). gen_id g = i)
          \<and> (NODE_ENV env \<noteq> ''test''
               \<or> \<not> (sim_success result \<and> or_null (resultPath result) \<noteq> None
                      \<and> copy_error \<noteq> None))"
  proof -
    from that obtain g where g: "find (\<lambda>g. gen_id g = i) (generations d) = Some g"
      using held_found [of "generations d" i] by blast
    from that have mode: "NODE_ENV env \<noteq> ''test''
               \<or> \<not> (sim_success result \<and> or_null (resultPath result) \<noteq> None
                      \<and> copy_error \<noteq> None)"
      and open_db: "\<not> closed d" by blast+
    have out: "processGeneration env result copy_error i orig d =
               (None, d\<lparr>generations := map (\<lambda>g. if gen_id g = i then f g else g) (generations d)\<rparr>)"
      unfolding f_def by (rule processGeneration_outcome [OF mode open_db g])
    from out P have quiet: "rejected = None"
      and d': "d' = d\<lparr>generations := map (\<lambda>g. if gen_id g = i then f g else g) (generations d)\<rparr>"
      by simp_all
    have found: "find (\<lambda>g. gen_id g = i) (generations d') = Some (f g)"
      by (simp add: d' find_marked [of f, OF keeps] g)
    have none_left: "\<forall>g' \<in> set (generations d'). gen_id g' = i \<longrightarrow> status g' \<noteq> Processing"
      by (auto simp add: d' final)
    have row: "\<exists>g'. find (\<lambda>g. gen_id g = i) (generations d') = Some g'
                \<and> status g' \<noteq> Processing
                \<and> (copy_error \<noteq> None \<or> \<not> sim_success result
                       \<or> or_null (resultPath result) = None
                     \<longrightarrow> status g' = Failed \<and> result_image_path g' = None)
                \<and> (copy_error = None \<and> sim_success result
                       \<and> or_null (resultPath result) \<noteq> None
                     \<longrightarrow> status g' = Completed)"
    proof (intro exI [of _ "f g"] conjI impI)
      show "find (\<lambda>g. gen_id g = i) (generations d') = Some (f g)" by (rule found)
      show "status (f g) \<noteq> Processing" by (rule final)
      show "status (f g) = Failed"
        if "copy_error \<noteq> None \<or> \<not> sim_success result \<or> or_null (resultPath result) = None"
        using failure [OF that] by simp
      show "result_image_path (f g) = None"
        if "copy_error \<noteq> None \<or> \<not> sim_success result \<or> or_null (resultPath result) = None"
        using failure [OF that] by simp
      show "status (f g) = Completed"
        if "copy_error = None \<and> sim_success result \<and> or_null (resultPath result) \<noteq> None"
        using success [OF that] .
    qed
    show ?thesis by (intro conjI quiet row none_left)
  qed
  have shut: "rejected = (if NODE_ENV env \<noteq> ''test'' then Some db_closed_error else None)
              \<and> d' = d" if "closed d"
  proof -
    have "processGeneration env result copy_error i orig d
            = (if NODE_ENV env \<noteq> ''test'' then Some db_closed_error else None, d)"
      by (rule processGeneration_refused) (rule updateStatus_closed [OF that])
    with P show ?thesis by simp
  qed
  have missing: "rejected = (if NODE_ENV env \<noteq> ''test''
                             then Some (Error ''Error'' ''Generation not found'' 193) else None)
              \<and> d' = d"
    if "\<not> closed d" "\<not> (\<exists>g \<in> set (generations d). gen_id g = i)"
  proof -
    have "processGeneration env result copy_error i orig d
            = (if NODE_ENV env \<noteq> ''test''
               then Some (Error ''Error'' ''Generation not found'' 193) else None, d)"
      by (rule processGeneration_refused) (rule updateStatus_absent [OF that])
    with P show ?thesis by simp
  qed
  have copy_failed: "rejected = None \<and> d' = d"
    if "NODE_ENV env = ''test''" "sim_success result \<and> or_null (resultPath result) \<noteq> None
                    \<and> copy_error \<noteq> None"
  proof -
    from that have "processGeneration env result copy_error i orig d = (None, d)"
      by (intro processGeneration_test_copy) blast+
    with P show ?thesis by simp
  qed
  have test_mode: "rejected = None
          \<and> (closed d \<or> \<not> (\<exists>g \<in> set (generations d). gen_id g = i)
               \<or> (sim_success result \<and> or_null (resultPath result) \<noteq> None
                    \<and> copy_error \<noteq> None)
              \<longrightarrow> d' = d)" if test: "NODE_ENV env = ''test''"
  proof (cases "closed d")
    case True
    from shut [OF True] test show ?thesis by simp
  next
    case open_db: False
    show ?thesis
    proof (cases "\<exists>g \<in> set (generations d). gen_id g = i")
      case False
      from missing [OF open_db False] test show ?thesis by simp
    next
      case held: True
      show ?thesis
      proof (cases "sim_success result \<and> or_null (resultPath result) \<noteq> None
                    \<and> copy_error \<noteq> None")
        case True
        from copy_failed [OF test True] show ?thesis by simp
      next
        case False
        with open_db held written have "rejected = None" by blast
        with open_db held False show ?thesis by blast
      qed
    qed
  qed
  have step: "server_step env (TaskFinishes k result copy_error) s
           = \<lparr>store = d', tasks = take k (tasks s) @ drop (Suc k) (tasks s),
              console = console s @ (case rejected of None \<Rightarrow> [] | Some e \<Rightarrow> [e])\<rparr>"
    using assms by simp
  have a: "\<not> closed d \<and> (\<exists>g \<in> set (generations d). gen_id g = i)
          \<and> (NODE_ENV env \<noteq> ''test''
               \<or> \<not> (sim_success result \<and> or_null (resultPath result) \<noteq> None
                      \<and> copy_error \<noteq> None)) \<longrightarrow>
            rejected = None
          \<and> (\<exists>g'. find (\<lambda>g. gen_id g = i) (generations d') = Some g'
                \<and> status g' \<noteq> Processing
                \<and> (copy_error \<noteq> None \<or> \<not> sim_success result
                       \<or> or_null (resultPath result) = None
                     \<longrightarrow> status g' = Failed \<and> result_image_path g' = None)
                \<and> (copy_error = None \<and> sim_success result
                       \<and> or_null (resultPath result) \<noteq> None
                     \<longrightarrow> status g' = Completed))
          \<and> (\<forall>g' \<in> set (generations d'). gen_id g' = i \<longrightarrow> status g' \<noteq> Processing)"
    using written by (rule impI)
  have b: "NODE_ENV env = ''test'' \<longrightarrow>
            rejected = None
          \<and> (closed d \<or> \<not> (\<exists>g \<in> set (generations d). gen_id g = i)
               \<or> (sim_success result \<and> or_null (resultPath result) \<noteq> None
                    \<and> copy_error \<noteq> None)
              \<longrightarrow> d' = d)"
    using test_mode by (rule impI)
  have c: "NODE_ENV env \<noteq> ''test'' \<and> closed d \<longrightarrow>
            rejected = Some db_closed_error \<and> d' = d"
    using shut by auto
  have e: "NODE_ENV env \<noteq> ''test'' \<and> \<not> closed d
            \<and> \<not> (\<exists>g \<in> set (generations d). gen_id g = i) \<longrightarrow>
            rejected = Some (Error ''Error'' ''Generation not found'' 193) \<and> d' = d"
    using missing by auto
  show ?thesis
    using a b c e step unfolding d_def by (intro conjI)
qed

theorem processor_marks_failed_witness:
  "fst (processGeneration sample_env named_result (Some copy_fails) ''g1'' ''uploads/cat.png''
          sample_db) = None
   \<and> (\<exists>g'. find (\<lambda>g. gen_id g = ''g1'')
               (generations (snd (processGeneration sample_env named_result (Some copy_fails)
                  ''g1'' ''uploads/cat.png'' sample_db))) = Some g'
           \<and> status g' = Failed \<and> result_image_path g' = None)
   \<and> (\<exists>g'. find (\<lambda>g. gen_id g = ''g1'')
               (generations (snd (processGeneration sample_env named_result None
                  ''g1'' ''uploads/cat.png'' sample_db))) = Some g'
           \<and> status g' = Completed)
   \<and> processGeneration testing named_result (Some copy_fails) ''g1'' ''uploads/cat.png'' sample_db
       = (None, sample_db)
   \<and> processGeneration sample_env named_result None ''g1'' ''uploads/cat.png''
        (sample_db\<lparr>closed := True\<rparr>)
       = (Some db_closed_error, sample_db\<lparr>closed := True\<rparr>)
   \<and> server_step sample_env (TaskFinishes 0 named_result None)
        (one_task\<lparr>store := sample_db\<lparr>closed := True\<rparr>\<rparr>)
       = \<lparr>store = sample_db\<lparr>closed := True\<rparr>, tasks = [], console = [db_closed_error]\<rparr>
   \<and> processGeneration sample_env named_result None ''zz'' ''uploads/cat.png'' sample_db
       = (Some (Error ''Error'' ''Generation not found'' 193), sample_db)"
proof -
  have production: "NODE_ENV sample_env \<noteq> ''test''" by (simp add: sample_env_def)
  have test: "NODE_ENV testing = ''test''" by (simp add: testing_def)
  have open_db: "\<not> closed sample_db" by (simp add: sample_db_def)
  have held: "\<exists>g \<in> set (generations sample_db). gen_id g = ''g1''"
    by (simp add: sample_db_def sample_row_def)
  have not_held: "\<not> (\<exists>g \<in> set (generations sample_db). gen_id g = ''zz'')"
    by (simp add: sample_db_def sample_row_def)
  have named: "sim_success named_result" "or_null (resultPath named_result) \<noteq> None"
    by (simp_all add: named_result_def or_null_def)
  have first: "0 < length (tasks one_task)" "tasks one_task ! 0 = (''g1'', ''uploads/cat.png'')"
    "store one_task = sample_db"
    by (simp_all add: one_task_def)
  define shut where "shut = one_task\<lparr>store := sample_db\<lparr>closed := True\<rparr>\<rparr>"
  have shut: "0 < length (tasks shut)" "tasks shut ! 0 = (''g1'', ''uploads/cat.png'')"
    "store shut = sample_db\<lparr>closed := True\<rparr>" "console shut = []"
    "tasks shut = [(''g1'', ''uploads/cat.png'')]"
    by (simp_all add: shut_def one_task_def)
  define lost where "lost = one_task\<lparr>tasks := [(''zz'', ''uploads/cat.png'')]\<rparr>"
  have lost: "0 < length (tasks lost)" "tasks lost ! 0 = (''zz'', ''uploads/cat.png'')"
    "store lost = sample_db"
    by (simp_all add: lost_def one_task_def)
  define A where "A = processGeneration sample_env named_result (Some copy_fails) ''g1''
                        ''uploads/cat.png'' sample_db"
  define B where "B = processGeneration sample_env named_result None ''g1''
                        ''uploads/cat.png'' sample_db"
  define C where "C = processGeneration testing named_result (Some copy_fails) ''g1''
                        ''uploads/cat.png'' sample_db"
  define D where "D = processGeneration sample_env named_result None ''g1''
                        ''uploads/cat.png'' (sample_db\<lparr>closed := True\<rparr>)"
  define E where "E = processGeneration sample_env named_result None ''zz''
                        ''uploads/cat.png'' sample_db"
  have pa: "processGeneration sample_env named_result (Some copy_fails) ''g1''
              ''uploads/cat.png'' (store one_task) = (fst A, snd A)"
    by (simp add: A_def first)
  have pb: "processGeneration sample_env named_result None ''g1''
              ''uploads/cat.png'' (store one_task) = (fst B, snd B)"
    by (simp add: B_def first)
  have pc: "processGeneration testing named_result (Some copy_fails) ''g1''
              ''uploads/cat.png'' (store one_task) = (fst C, snd C)"
    by (simp add: C_def first)
  have pd: "processGeneration sample_env named_result None ''g1''
              ''uploads/cat.png'' (store shut) = (fst D, snd D)"
    by (simp add: D_def shut)
  have pe: "processGeneration sample_env named_result None ''zz''
              ''uploads/cat.png'' (store lost) = (fst E, snd E)"
    by (simp add: E_def lost)
  note ta = processor_marks_failed [OF first(1,2) pa, unfolded first(3)]
  note tb = processor_marks_failed [OF first(1,2) pb, unfolded first(3)]
  note tc = processor_marks_failed [OF first(1,2) pc, unfolded first(3)]
  note td = processor_marks_failed [OF shut(1,2) pd, unfolded shut(3)]
  note te = processor_marks_failed [OF lost(1,2) pe, unfolded lost(3)]
  from ta open_db held production
  have a: "fst A = None
     \<and> (\<exists>g'. find (\<lambda>g. gen_id g = ''g1'') (generations (snd A)) = Some g'
            \<and> status g' = Failed \<and> result_image_path g' = None)"
    by blast
  from tb open_db held production named
  have b: "\<exists>g'. find (\<lambda>g. gen_id g = ''g1'') (generations (snd B)) = Some g'
            \<and> status g' = Completed"
    by blast
  from tc test named have "fst C = None \<and> snd C = sample_db" by blast
  then have c: "C = (None, sample_db)" by (simp add: prod_eq_iff)
  from td production have "fst D = Some db_closed_error \<and> snd D = sample_db\<lparr>closed := True\<rparr>"
    by simp
  then have d: "D = (Some db_closed_error, sample_db\<lparr>closed := True\<rparr>)"
    by (simp add: prod_eq_iff)
  from td d have step: "server_step sample_env (TaskFinishes 0 named_result None) shut
       = \<lparr>store = sample_db\<lparr>closed := True\<rparr>, tasks = [], console = [db_closed_error]\<rparr>"
    by (simp add: shut)
  from te production open_db not_held
  have "fst E = Some (Error ''Error'' ''Generation not found'' 193) \<and> snd E = sample_db"
    by blast
  then have e: "E = (Some (Error ''Error'' ''Generation not found'' 193), sample_db)"
    by (simp add: prod_eq_iff)
  from a b c d step e show ?thesis
    unfolding A_def B_def C_def D_def E_def shut_def by (intro conjI) blast+
qed

section \<open>Properties of the stored jobs\<close>

lemma updateStatus_rows:
  "generations (snd (Generation_updateStatus d i st rp)) = generations d
   \<or> generations (snd (Generation_updateStatus d i st rp))
       = map (\<lambda>g. if gen_id g = i then g\<lparr>status := st, result_image_path := or_null rp\<rparr> else g)
             (generations d)"
  by (simp add: Generation_updateStatus_def Let_def)

lemma or_null_Some: "or_null rp = Some p \<Longrightarrow> p \<noteq> []"
  by (auto simp add: or_null_def split: option.splits if_splits)

lemma updateStatus_consistent:
  assumes "\<forall>g \<in> set (generations d). consistent g"
    and "(st = Completed) = (or_null rp \<noteq> None)"
  shows "\<forall>g \<in> set (generations (snd (Generation_updateStatus d i st rp))). consistent g"
proof -
  have "consistent (g\<lparr>status := st, result_image_path := or_null rp\<rparr>)" for g
    using assms(2) by (auto simp add: consistent_def dest: or_null_Some split: option.splits)
  with assms(1) show ?thesis
    using updateStatus_rows [of d i st rp] by auto
qed

lemma snd_settle:
  "snd (case x of (Inl e, d') \<Rightarrow> (Some e, d') | (Inr g, d') \<Rightarrow> (None, d')) = snd x"
  by (cases x; cases "fst x") auto

lemma try_consistent:
  assumes "\<forall>a b. path_join env a b \<noteq> []" and "\<forall>g \<in> set (generations d). consistent g"
  shows "\<forall>g \<in> set (generations (snd (processGeneration_try env result copy_error i orig d))).
           consistent g"
proof -
  have failed: "\<forall>g \<in> set (generations (snd (Generation_updateStatus d i Failed None))). consistent g"
    by (rule updateStatus_consistent [OF assms(2)]) (simp add: or_null_def)
  have completed: "\<forall>g \<in> set (generations (snd (Generation_updateStatus d i Completed
                       (Some (path_join env a b))))). consistent g" for a b
    by (rule updateStatus_consistent [OF assms(2)]) (simp add: or_null_def assms(1))
  show ?thesis
  proof (cases "sim_success result")
    case False
    then show ?thesis
      using failed by (simp add: processGeneration_try_def snd_settle)
  next
    case success: True
    show ?thesis
    proof (cases "or_null (resultPath result)")
      case None
      with success show ?thesis
        using failed by (simp add: processGeneration_try_def snd_settle)
    next
      case (Some name)
      show ?thesis
      proof (cases copy_error)
        case None
        with success Some show ?thesis
          using completed by (simp add: processGeneration_try_def snd_settle Let_def)
      next
        case (Some e)
        with success \<open>or_null (resultPath result) = Some name\<close> show ?thesis
          using assms(2) by (simp add: processGeneration_try_def Let_def)
      qed
    qed
  qed
qed

lemma processGeneration_consistent:
  assumes "\<forall>a b. path_join env a b \<noteq> []" and "\<forall>g \<in> set (generations d). consistent g"
  shows "\<forall>g \<in> set (generations (snd (processGeneration env result copy_error i orig d))).
           consistent g"
proof -
  obtain rej d' where t: "processGeneration_try env result copy_error i orig d = (rej, d')"
    by (cases "processGeneration_try env result copy_error i orig d")
  have d': "\<forall>g \<in> set (generations d'). consistent g"
    using try_consistent [OF assms, of result copy_error i orig] t by simp
  have again: "\<forall>g \<in> set (generations (snd (Generation_updateStatus d' i Failed None))). consistent g"
    by (rule updateStatus_consistent [OF d']) (simp add: or_null_def)
  show ?thesis
  proof (cases rej)
    case None
    with t d' show ?thesis by (simp add: processGeneration_def)
  next
    case (Some e)
    with t d' again show ?thesis by (simp add: processGeneration_def snd_settle)
  qed
qed

lemma create_rows:
  "generations (snd (Generation_create now d cd)) = generations d
   \<or> (\<not> closed d \<and> (\<forall>g \<in> set (generations d). gen_id g \<noteq> cd_id cd)
       \<and> generations (snd (Generation_create now d cd))
           = generations d @ [\<lparr>gen_id = cd_id cd, user_id = cd_user_id cd,
                                 gen_prompt = cd_prompt cd, gen_style = cd_style cd,
                                 image_path = or_null (cd_image_path cd),
                                 result_image_path = None, status = Processing,
                                 created_at = now\<rparr>])"
  by (auto simp add: Generation_create_def Let_def)

lemma createGeneration_store:
  "fst (snd (createGeneration now generationId d ru b upl)) = d
   \<or> (\<exists>cd. cd_id cd = generationId
          \<and> fst (snd (createGeneration now generationId d ru b upl))
              = snd (Generation_create now d cd))"
proof (cases "authenticated_id ru")
  case (Inl e)
  then show ?thesis by (simp add: createGeneration_def)
next
  case (Inr userId)
  show ?thesis
  proof (cases "createGenerationSchema_parse b")
    case (Inl e)
    with Inr show ?thesis by (simp add: createGeneration_def)
  next
    case parsed: (Inr ps)
    obtain p s where ps: "ps = (p, s)" by (cases ps)
    show ?thesis
    proof (cases upl)
      case None
      with Inr parsed ps show ?thesis by (simp add: createGeneration_def)
    next
      case (Some f)
      show ?thesis
      proof (cases "validateImageFile f")
        case bad: (Some fileError)
        with Inr parsed ps Some show ?thesis by (simp add: createGeneration_def)
      next
        case None
        define cd where "cd = \<lparr>cd_id = generationId, cd_user_id = userId, cd_prompt = p,
                                cd_style = s, cd_image_path = Some (file_path f)\<rparr>"
        obtain r d' where c: "Generation_create now d cd = (r, d')"
          by (cases "Generation_create now d cd")
        have "fst (snd (createGeneration now generationId d ru b upl)) = d'"
          using Inr parsed ps Some None c
          by (cases r) (simp_all add: createGeneration_def cd_def)
        moreover have "cd_id cd = generationId" by (simp add: cd_def)
        ultimately show ?thesis using c by (metis snd_conv)
      qed
    qed
  qed
qed

lemma createGeneration_consistent:
  assumes "\<forall>g \<in> set (generations d). consistent g"
  shows "\<forall>g \<in> set (generations (fst (snd (createGeneration now generationId d ru b upl)))).
           consistent g"
proof -
  have "\<forall>g \<in> set (generations (snd (Generation_create now d cd))). consistent g" for cd
    using create_rows [of now d cd] assms by (auto simp add: consistent_def)
  then show ?thesis
    using createGeneration_store [of now generationId d ru b upl] assms by auto
qed

lemma server_step_consistent:
  assumes "\<forall>a b. path_join env a b \<noteq> []"
    and "\<forall>g \<in> set (generations (store s)). consistent g"
  shows "\<forall>g \<in> set (generations (store (server_step env e s))). consistent g"
proof (cases e)
  case (PostGeneration ru b upl generationId now)
  obtain r d' started where c: "createGeneration now generationId (store s) ru b upl = (r, d', started)"
    by (cases "createGeneration now generationId (store s) ru b upl") auto
  with createGeneration_consistent [OF assms(2), of now generationId ru b upl]
  show ?thesis by (simp add: PostGeneration)
next
  case (GetGenerations ru q)
  with assms(2) show ?thesis by simp
next
  case (GetGeneration ru i)
  with assms(2) show ?thesis by simp
next
  case (TaskFinishes k result copy_error)
  show ?thesis
  proof (cases "k < length (tasks s)")
    case False
    with assms(2) show ?thesis by (simp add: TaskFinishes)
  next
    case True
    obtain rej d' where p: "processGeneration env result copy_error (fst (tasks s ! k))
                              (snd (tasks s ! k)) (store s) = (rej, d')"
      by (cases "processGeneration env result copy_error (fst (tasks s ! k))
                              (snd (tasks s ! k)) (store s)")
    with processGeneration_consistent [OF assms, of result copy_error "fst (tasks s ! k)"
        "snd (tasks s ! k)"] True
    show ?thesis by (simp add: TaskFinishes)
  qed
next
  case (Connection is_open)
  with assms(2) show ?thesis by simp
qed

lemma server_run_snoc: "server_run env (evs @ [e]) s = server_step env e (server_run env evs s)"
  by (simp add: server_run_def)

lemma server_run_consistent:
  assumes "\<forall>a b. path_join env a b \<noteq> []"
  shows "\<forall>g \<in> set (generations (store (server_run env evs (boot us)))). consistent g"
proof (induction evs rule: rev_induct)
  case Nil
  show ?case by (simp add: server_run_def boot_def)
next
  case (snoc e evs)
  show ?case
    unfolding server_run_snoc by (rule server_step_consistent [OF assms snoc.IH])
qed

lemma two_jobs_rows:
  "map (\<lambda>g. (gen_id g, status g, result_image_path g))
       (generations (store (server_run sample_env two_jobs (boot [alice]))))
     = [(''j1'', Completed, Some ''uploads/result_1.jpg''), (''j2'', Failed, None)]"
  by (simp add: server_run_def two_jobs_def boot_def createGeneration_def authenticated_id_def
      as_alice_def cat_body_def createGenerationSchema_parse_def STYLES_def validateImageFile_def
      png_def Generation_create_def Generation_findById_def or_null_def Let_def
      processGeneration_def processGeneration_try_def Generation_updateStatus_def
      sample_env_def sample_dirname_def)

text \<open>
  C5. Whatever requests and background completions the server has gone through since it
  started, every row it stores has a result path exactly if its status is completed, and
  the \<open>resultImageUrl\<close> the API derives from the row is present exactly then; a row
  that is processing or failed has neither. \<open>path.join\<close> is assumed never to return the
  empty string, as Node documents.
\<close>

theorem result_path_iff_completed:
  assumes "\<forall>a b. path_join env a b \<noteq> []"
  shows "\<forall>g \<in> set (generations (store (server_run env evs (boot us)))).
           (result_image_path g \<noteq> None \<longleftrightarrow> status g = Completed)
           \<and> (resultImageUrl (transform env g) \<noteq> None \<longleftrightarrow> status g = Completed)
           \<and> (status g = Processing \<or> status g = Failed \<longrightarrow>
                result_image_path g = None \<and> resultImageUrl (transform env g) = None)"
proof
  fix g
  assume "g \<in> set (generations (store (server_run env evs (boot us))))"
  with server_run_consistent [OF assms, of evs us] have c: "consistent g" by blast
  show "(result_image_path g \<noteq> None \<longleftrightarrow> status g = Completed)
           \<and> (resultImageUrl (transform env g) \<noteq> None \<longleftrightarrow> status g = Completed)
           \<and> (status g = Processing \<or> status g = Failed \<longrightarrow>
                result_image_path g = None \<and> resultImageUrl (transform env g) = None)"
  proof (cases "result_image_path g")
    case None
    with c show ?thesis
      by (simp add: consistent_def transform_def upload_url_def or_null_def)
  next
    case (Some p)
    with c show ?thesis
      by (simp add: consistent_def transform_def upload_url_def or_null_def)
  qed
qed

theorem result_path_iff_completed_witness:
  "(\<forall>a b. path_join sample_env a b \<noteq> [])
   \<and> map (\<lambda>g. (gen_id g, status g, result_image_path g))
         (generations (store (server_run sample_env two_jobs (boot [alice]))))
       = [(''j1'', Completed, Some ''uploads/result_1.jpg''), (''j2'', Failed, None)]
   \<and> list_all (\<lambda>g. (result_image_path g \<noteq> None) = (status g = Completed)
                    \<and> (resultImageUrl (transform sample_env g) \<noteq> None) = (status g = Completed))
        (generations (store (server_run sample_env two_jobs (boot [alice]))))"
proof -
  have joined: "\<forall>a b. path_join sample_env a b \<noteq> []" by (simp add: sample_env_def)
  have rows: "map (\<lambda>g. (gen_id g, status g, result_image_path g))
         (generations (store (server_run sample_env two_jobs (boot [alice]))))
       = [(''j1'', Completed, Some ''uploads/result_1.jpg''), (''j2'', Failed, None)]"
    by (rule two_jobs_rows)
  have all: "list_all (\<lambda>g. (result_image_path g \<noteq> None) = (status g = Completed)
                    \<and> (resultImageUrl (transform sample_env g) \<noteq> None) = (status g = Completed))
        (generations (store (server_run sample_env two_jobs (boot [alice]))))"
    using result_path_iff_completed [OF joined, of two_jobs "[alice]"]
    by (simp add: list_all_iff)
  from joined rows all show ?thesis by (intro conjI)
qed

section \<open>Properties of the job lifecycle\<close>

lemma only_rows_same: "generations d' = generations d \<Longrightarrow> only_rows_of i d d'"
  by (simp add: only_rows_of_def)

lemma only_rows_trans:
  "only_rows_of i d d' \<Longrightarrow> only_rows_of i d' d'' \<Longrightarrow> only_rows_of i d d''"
  by (simp add: only_rows_of_def)

lemma only_rows_ids:
  assumes "only_rows_of i d d'"
  shows "map gen_id (generations d') = map gen_id (generations d)"
  using assms by (auto simp add: only_rows_of_def intro: nth_equalityI)

lemma updateStatus_only: "only_rows_of i d (snd (Generation_updateStatus d i st rp))"
  using updateStatus_rows [of d i st rp] by (auto simp add: only_rows_of_def)

lemma try_only: "only_rows_of i d (snd (processGeneration_try env result copy_error i orig d))"
proof (cases "sim_success result")
  case False
  then show ?thesis
    by (simp add: processGeneration_try_def snd_settle updateStatus_only)
next
  case success: True
  show ?thesis
  proof (cases "or_null (resultPath result)")
    case None
    with success show ?thesis
      by (simp add: processGeneration_try_def snd_settle updateStatus_only)
  next
    case (Some name)
    show ?thesis
    proof (cases copy_error)
      case None
      with success Some show ?thesis
        by (simp add: processGeneration_try_def snd_settle Let_def updateStatus_only)
    next
      case (Some e)
      with success \<open>or_null (resultPath result) = Some name\<close> show ?thesis
        by (simp add: processGeneration_try_def Let_def only_rows_same)
    qed
  qed
qed

lemma processGeneration_only:
  "only_rows_of i d (snd (processGeneration env result copy_error i orig d))"
proof -
  obtain rej d' where t: "processGeneration_try env result copy_error i orig d = (rej, d')"
    by (cases "processGeneration_try env result copy_error i orig d")
  have first: "only_rows_of i d d'"
    using try_only [of i d env result copy_error orig] t by simp
  have second: "only_rows_of i d (snd (Generation_updateStatus d' i Failed None))"
    by (rule only_rows_trans [OF first updateStatus_only])
  show ?thesis
  proof (cases rej)
    case None
    with t first show ?thesis by (simp add: processGeneration_def)
  next
    case (Some e)
    with t first second show ?thesis by (simp add: processGeneration_def snd_settle)
  qed
qed

lemma same_id_same_row:
  assumes "distinct (map gen_id xs)" and "x \<in> set xs" and "y \<in> set xs" and "gen_id x = gen_id y"
  shows "x = y"
  using assms by (meson distinct_map inj_onD)

lemma task_finishes_store:
  assumes "k < length (tasks s)"
  shows "store (server_step env (TaskFinishes k result copy_error) s)
           = snd (processGeneration env result copy_error (fst (tasks s ! k)) (snd (tasks s ! k))
                    (store s))"
    and "tasks (server_step env (TaskFinishes k result copy_error) s)
           = take k (tasks s) @ drop (Suc k) (tasks s)"
  using assms by (simp_all split: prod.splits)

lemma others_differ:
  assumes "distinct (map fst ts)" and "k < length ts"
    and "t \<in> set (take k ts @ drop (Suc k) ts)"
  shows "fst t \<noteq> fst (ts ! k)"
proof -
  have split: "map fst ts = map fst (take k ts) @ fst (ts ! k) # map fst (drop (Suc k) ts)"
    using assms(2) by (metis id_take_nth_drop list.simps(9) map_append)
  from assms(1) have "distinct (map fst (take k ts) @ fst (ts ! k) # map fst (drop (Suc k) ts))"
    by (simp add: split [symmetric])
  then have "fst (ts ! k) \<notin> set (map fst (take k ts))"
    and "fst (ts ! k) \<notin> set (map fst (drop (Suc k) ts))"
    by auto
  moreover from assms(3) have "fst t \<in> set (map fst (take k ts))
      \<or> fst t \<in> set (map fst (drop (Suc k) ts))"
    by auto
  ultimately show ?thesis by metis
qed

lemma others_distinct:
  assumes "distinct (map fst ts)"
  shows "distinct (map fst (take k ts @ drop (Suc k) ts))"
proof -
  have apart: "set (take k (map fst ts)) \<inter> set (drop (Suc k) (map fst ts)) = {}"
    by (rule set_take_disj_set_drop_if_distinct [OF assms]) simp
  have front: "distinct (take k (map fst ts))"
    using assms by (rule distinct_take)
  have rear: "distinct (drop (Suc k) (map fst ts))"
    using assms by (rule distinct_drop)
  from apart front rear show ?thesis
    unfolding take_map drop_map by simp
qed

lemma task_step:
  assumes "pending_ok s" and "k < length (tasks s)"
  shows "pending_ok (server_step env (TaskFinishes k result copy_error) s)
       \<and> length (generations (store (server_step env (TaskFinishes k result copy_error) s)))
           = length (generations (store s))
       \<and> (\<forall>m < length (generations (store s)).
             status (generations (store s) ! m) \<noteq> Processing \<longrightarrow>
             generations (store (server_step env (TaskFinishes k result copy_error) s)) ! m
               = generations (store s) ! m)"
proof -
  define i where "i = fst (tasks s ! k)"
  define d' where "d' = snd (processGeneration env result copy_error i (snd (tasks s ! k)) (store s))"
  define ts' where "ts' = take k (tasks s) @ drop (Suc k) (tasks s)"
  have st: "store (server_step env (TaskFinishes k result copy_error) s) = d'"
    and tk: "tasks (server_step env (TaskFinishes k result copy_error) s) = ts'"
    using task_finishes_store [OF assms(2), of env result copy_error]
    by (simp_all add: d'_def i_def ts'_def)
  have only: "only_rows_of i (store s) d'"
    unfolding d'_def by (rule processGeneration_only)
  have len: "length (generations d') = length (generations (store s))"
    using only by (simp add: only_rows_of_def)
  have kept: "generations d' ! m = generations (store s) ! m"
    if "m < length (generations (store s))" "gen_id (generations (store s) ! m) \<noteq> i" for m
    using only that by (simp add: only_rows_of_def)
  have ids: "distinct (map gen_id (generations (store s)))"
    and tids: "distinct (map fst (tasks s))"
    and rows: "\<forall>t \<in> set (tasks s).
                 \<exists>g \<in> set (generations (store s)). gen_id g = fst t \<and> status g = Processing"
    using assms(1) by (simp_all add: pending_ok_def)
  have "tasks s ! k \<in> set (tasks s)" using assms(2) by simp
  with rows obtain g where g: "g \<in> set (generations (store s))" "gen_id g = i"
      "status g = Processing"
    unfolding i_def by blast
  have terminal: "gen_id (generations (store s) ! m) \<noteq> i"
    if "m < length (generations (store s))" "status (generations (store s) ! m) \<noteq> Processing" for m
  proof
    assume "gen_id (generations (store s) ! m) = i"
    with same_id_same_row [OF ids _ g(1)] that(1) g(2) have "generations (store s) ! m = g"
      by simp
    with that(2) g(3) show False by simp
  qed
  have ids': "distinct (map gen_id (generations d'))"
    using only_rows_ids [OF only] ids by simp
  have tids': "distinct (map fst ts')"
    unfolding ts'_def by (rule others_distinct [OF tids])
  have rows': "\<exists>g \<in> set (generations d'). gen_id g = fst t \<and> status g = Processing"
    if "t \<in> set ts'" for t
  proof -
    from that have other: "fst t \<noteq> i"
      unfolding ts'_def i_def by (rule others_differ [OF tids assms(2)])
    from that have "t \<in> set (tasks s)"
      unfolding ts'_def by (auto dest: in_set_takeD in_set_dropD)
    with rows obtain gt where gt: "gt \<in> set (generations (store s))" "gen_id gt = fst t"
        "status gt = Processing"
      by blast
    from gt(1) obtain m where m: "m < length (generations (store s))"
        "generations (store s) ! m = gt"
      by (auto simp add: in_set_conv_nth)
    with gt(2) other have "generations d' ! m = gt" by (simp add: kept)
    moreover from m(1) len have "generations d' ! m \<in> set (generations d')" by simp
    ultimately show ?thesis using gt(2,3) by auto
  qed
  have ok: "pending_ok (server_step env (TaskFinishes k result copy_error) s)"
    unfolding pending_ok_def st tk using ids' tids' rows' by blast
  have fixed: "\<forall>m < length (generations (store s)).
             status (generations (store s) ! m) \<noteq> Processing \<longrightarrow>
             generations (store (server_step env (TaskFinishes k result copy_error) s)) ! m
               = generations (store s) ! m"
    unfolding st using kept terminal by blast
  have len': "length (generations (store (server_step env (TaskFinishes k result copy_error) s)))
           = length (generations (store s))"
    unfolding st by (rule len)
  show ?thesis by (intro conjI ok len' fixed)
qed

lemma find_appended:
  assumes "\<forall>g \<in> set xs. gen_id g \<noteq> i" and "gen_id row = i"
  shows "find (\<lambda>g. gen_id g = i) (xs @ [row]) = Some row"
  using assms by (induction xs) simp_all

lemma create_cases:
  "(\<exists>e. Generation_create now d cd = (Inl e, d))
   \<or> (\<exists>row. Generation_create now d cd = (Inr row, d\<lparr>generations := generations d @ [row]\<rparr>)
          \<and> gen_id row = cd_id cd \<and> status row = Processing
          \<and> (\<forall>g \<in> set (generations d). gen_id g \<noteq> cd_id cd))"
proof (cases "closed d \<or> (\<exists>g \<in> set (generations d). gen_id g = cd_id cd)")
  case True
  then show ?thesis by (auto simp add: Generation_create_def)
next
  case False
  define row where "row = \<lparr>gen_id = cd_id cd, user_id = cd_user_id cd,
                            gen_prompt = cd_prompt cd, gen_style = cd_style cd,
                            image_path = or_null (cd_image_path cd),
                            result_image_path = None, status = Processing,
                            created_at = now\<rparr>"
  have fresh: "\<forall>g \<in> set (generations d). gen_id g \<noteq> cd_id cd" using False by blast
  have "find (\<lambda>g. gen_id g = cd_id cd) (generations d @ [row]) = Some row"
    by (rule find_appended [OF fresh]) (simp add: row_def)
  with False have "Generation_create now d cd
                     = (Inr row, d\<lparr>generations := generations d @ [row]\<rparr>)"
    by (simp add: Generation_create_def Generation_findById_def Let_def row_def)
  moreover have "gen_id row = cd_id cd" "status row = Processing" by (simp_all add: row_def)
  ultimately show ?thesis using fresh by blast
qed

lemma createGeneration_cases:
  "(\<exists>r. createGeneration now generationId d ru b upl = (r, d, []))
   \<or> (\<exists>res row p. createGeneration now generationId d ru b upl
                     = (Inr res, d\<lparr>generations := generations d @ [row]\<rparr>, [(generationId, p)])
          \<and> gen_id row = generationId \<and> status row = Processing
          \<and> (\<forall>g \<in> set (generations d). gen_id g \<noteq> generationId))"
proof (cases "authenticated_id ru")
  case (Inl e)
  then show ?thesis by (simp add: createGeneration_def)
next
  case (Inr userId)
  show ?thesis
  proof (cases "createGenerationSchema_parse b")
    case (Inl e)
    with Inr show ?thesis by (simp add: createGeneration_def)
  next
    case parsed: (Inr ps)
    obtain p s where ps: "ps = (p, s)" by (cases ps)
    show ?thesis
    proof (cases upl)
      case None
      with Inr parsed ps show ?thesis by (simp add: createGeneration_def)
    next
      case (Some f)
      show ?thesis
      proof (cases "validateImageFile f")
        case bad: (Some fileError)
        with Inr parsed ps Some show ?thesis by (simp add: createGeneration_def)
      next
        case None
        define cd where "cd = \<lparr>cd_id = generationId, cd_user_id = userId, cd_prompt = p,
                                cd_style = s, cd_image_path = Some (file_path f)\<rparr>"
        have cid: "cd_id cd = generationId" by (simp add: cd_def)
        from create_cases [of now d cd] show ?thesis
        proof
          assume "\<exists>e. Generation_create now d cd = (Inl e, d)"
          then obtain e where "Generation_create now d cd = (Inl e, d)" ..
          with Inr parsed ps Some None have
            "createGeneration now generationId d ru b upl = (Inl e, d, [])"
            by (simp add: createGeneration_def cd_def)
          then show ?thesis by blast
        next
          assume "\<exists>row. Generation_create now d cd
                          = (Inr row, d\<lparr>generations := generations d @ [row]\<rparr>)
                     \<and> gen_id row = cd_id cd \<and> status row = Processing
                     \<and> (\<forall>g \<in> set (generations d). gen_id g \<noteq> cd_id cd)"
          then obtain row where row:
            "Generation_create now d cd = (Inr row, d\<lparr>generations := generations d @ [row]\<rparr>)"
            "gen_id row = cd_id cd" "status row = Processing"
            "\<forall>g \<in> set (generations d). gen_id g \<noteq> cd_id cd"
            by blast
          from Inr parsed ps Some None row(1) have
            "\<exists>res. createGeneration now generationId d ru b upl
                     = (Inr res, d\<lparr>generations := generations d @ [row]\<rparr>,
                        [(generationId, file_path f)])"
            by (simp add: createGeneration_def cd_def)
          with row(2,3,4) cid show ?thesis by metis
        qed
      qed
    qed
  qed
qed

lemma post_step:
  assumes "pending_ok s"
  shows "pending_ok (server_step env (PostGeneration ru b upl generationId now) s)
       \<and> (\<exists>new. generations (store (server_step env (PostGeneration ru b upl generationId now) s))
                   = generations (store s) @ new
                 \<and> (\<forall>g \<in> set new. status g = Processing))"
proof -
  have ids: "distinct (map gen_id (generations (store s)))"
    and tids: "distinct (map fst (tasks s))"
    and rows: "\<forall>t \<in> set (tasks s).
                 \<exists>g \<in> set (generations (store s)). gen_id g = fst t \<and> status g = Processing"
    using assms by (simp_all add: pending_ok_def)
  from createGeneration_cases [of now generationId "store s" ru b upl] show ?thesis
  proof
    assume "\<exists>r. createGeneration now generationId (store s) ru b upl = (r, store s, [])"
    then obtain r where "createGeneration now generationId (store s) ru b upl = (r, store s, [])" ..
    then have same: "server_step env (PostGeneration ru b upl generationId now) s = s"
      by simp
    show ?thesis unfolding same using assms by simp
  next
    assume "\<exists>res row p. createGeneration now generationId (store s) ru b upl
                     = (Inr res, (store s)\<lparr>generations := generations (store s) @ [row]\<rparr>,
                        [(generationId, p)])
          \<and> gen_id row = generationId \<and> status row = Processing
          \<and> (\<forall>g \<in> set (generations (store s)). gen_id g \<noteq> generationId)"
    then obtain res row p where c:
      "createGeneration now generationId (store s) ru b upl
         = (Inr res, (store s)\<lparr>generations := generations (store s) @ [row]\<rparr>, [(generationId, p)])"
      "gen_id row = generationId" "status row = Processing"
      "\<forall>g \<in> set (generations (store s)). gen_id g \<noteq> generationId"
      by blast
    from c(1) have st: "generations (store (server_step env (PostGeneration ru b upl generationId now) s))
                          = generations (store s) @ [row]"
      and tk: "tasks (server_step env (PostGeneration ru b upl generationId now) s)
                 = tasks s @ [(generationId, p)]"
      by simp_all
    have ids': "distinct (map gen_id (generations (store s) @ [row]))"
      using ids c(2,4) by auto
    have untaken: "generationId \<notin> fst ` set (tasks s)"
    proof
      assume "generationId \<in> fst ` set (tasks s)"
      then obtain t where "t \<in> set (tasks s)" "fst t = generationId" by auto
      with rows c(4) show False by metis
    qed
    have tids': "distinct (map fst (tasks s @ [(generationId, p)]))"
      using tids untaken by simp
    have rows': "\<forall>t \<in> set (tasks s @ [(generationId, p)]).
                   \<exists>g \<in> set (generations (store s) @ [row]). gen_id g = fst t \<and> status g = Processing"
      using rows c(2,3) by auto
    have ok: "pending_ok (server_step env (PostGeneration ru b upl generationId now) s)"
      unfolding pending_ok_def st tk using ids' tids' rows' by blast
    have "\<forall>g \<in> set [row]. status g = Processing" using c(3) by simp
    with st have "\<exists>new. generations (store (server_step env (PostGeneration ru b upl generationId now) s))
                   = generations (store s) @ new
                 \<and> (\<forall>g \<in> set new. status g = Processing)"
      by blast
    with ok show ?thesis ..
  qed
qed

lemma step_keeps:
  assumes "pending_ok s"
  shows "pending_ok (server_step env e s)
       \<and> length (generations (store s)) \<le> length (generations (store (server_step env e s)))
       \<and> (\<forall>m < length (generations (store s)).
             status (generations (store s) ! m) \<noteq> Processing \<longrightarrow>
             generations (store (server_step env e s)) ! m = generations (store s) ! m)
       \<and> (\<forall>m. length (generations (store s)) \<le> m
               \<and> m < length (generations (store (server_step env e s))) \<longrightarrow>
             status (generations (store (server_step env e s)) ! m) = Processing)"
proof (cases e)
  case (PostGeneration ru b upl generationId now)
  from post_step [OF assms, where env = env and ru = ru and b = b and upl = upl
      and generationId = generationId and now = now]
  obtain new where ok: "pending_ok (server_step env e s)"
    and grown: "generations (store (server_step env e s)) = generations (store s) @ new"
    and fresh: "\<forall>g \<in> set new. status g = Processing"
    unfolding PostGeneration by blast
  have "status ((generations (store s) @ new) ! m) = Processing"
    if "length (generations (store s)) \<le> m" "m < length (generations (store s) @ new)" for m
  proof -
    from that have "(generations (store s) @ new) ! m = new ! (m - length (generations (store s)))"
      by (simp add: nth_append)
    moreover from that have "new ! (m - length (generations (store s))) \<in> set new"
      by simp
    ultimately show ?thesis using fresh by simp
  qed
  with ok show ?thesis
    unfolding grown by (simp add: nth_append)
next
  case (GetGenerations ru q)
  with assms show ?thesis by auto
next
  case (GetGeneration ru i)
  with assms show ?thesis by auto
next
  case (TaskFinishes k result copy_error)
  show ?thesis
  proof (cases "k < length (tasks s)")
    case True
    define s' where "s' = server_step env (TaskFinishes k result copy_error) s"
    from task_step [OF assms True, where env = env and result = result
        and copy_error = copy_error]
    have "pending_ok s'"
      and "length (generations (store s')) = length (generations (store s))"
      and "\<forall>m < length (generations (store s)).
             status (generations (store s) ! m) \<noteq> Processing \<longrightarrow>
             generations (store s') ! m = generations (store s) ! m"
      unfolding s'_def by blast+
    then show ?thesis
      unfolding TaskFinishes s'_def [symmetric] by auto
  next
    case False
    with assms show ?thesis by (auto simp add: TaskFinishes)
  qed
next
  case (Connection is_open)
  with assms show ?thesis by (auto simp add: pending_ok_def)
qed

lemma server_run_pending_ok: "pending_ok (server_run env evs (boot us))"
proof (induction evs rule: rev_induct)
  case Nil
  show ?case by (simp add: server_run_def boot_def pending_ok_def)
next
  case (snoc e evs)
  from step_keeps [OF snoc.IH, where env = env and e = e] show ?case
    unfolding server_run_snoc by blast
qed

lemma two_jobs_store:
  "generations (store (server_run sample_env two_jobs (boot [alice])))
     = [\<lparr>gen_id = ''j1'', user_id = 1, gen_prompt = ''a cat'', gen_style = ''cartoon'',
         image_path = Some ''uploads/cat.png'',
         result_image_path = Some ''uploads/result_1.jpg'', status = Completed,
         created_at = 100\<rparr>,
        \<lparr>gen_id = ''j2'', user_id = 1, gen_prompt = ''a cat'', gen_style = ''cartoon'',
         image_path = Some ''uploads/cat.png'', result_image_path = None, status = Failed,
         created_at = 200\<rparr>]"
  by (simp add: server_run_def two_jobs_def boot_def createGeneration_def authenticated_id_def
      as_alice_def cat_body_def createGenerationSchema_parse_def STYLES_def validateImageFile_def
      png_def Generation_create_def Generation_findById_def or_null_def Let_def
      processGeneration_def processGeneration_try_def Generation_updateStatus_def
      sample_env_def sample_dirname_def)

lemma three_jobs_length:
  "length (generations (store (server_run sample_env (two_jobs @ [third_job]) (boot [alice])))) = 3"
  by (simp add: server_run_def two_jobs_def third_job_def boot_def createGeneration_def
      authenticated_id_def
      as_alice_def cat_body_def createGenerationSchema_parse_def STYLES_def validateImageFile_def
      png_def Generation_create_def Generation_findById_def or_null_def Let_def
      processGeneration_def processGeneration_try_def Generation_updateStatus_def
      sample_env_def sample_dirname_def)

text \<open>
  C4. Take any state the server reaches from its start and any one thing that can happen
  next (a create request, a read, a background task finishing, the connection closing or
  opening). Every row whose status is completed or failed is still there, at its place
  and unchanged, afterwards; every row that is new afterwards is processing; and a status
  is one of processing, completed and failed.
\<close>

theorem terminal_status_is_final:
  "(\<forall>m < length (generations (store (server_run env evs (boot us)))).
       status (generations (store (server_run env evs (boot us))) ! m) \<noteq> Processing \<longrightarrow>
         m < length (generations (store (server_run env (evs @ [e]) (boot us))))
         \<and> generations (store (server_run env (evs @ [e]) (boot us))) ! m
             = generations (store (server_run env evs (boot us))) ! m)
   \<and> (\<forall>m. length (generations (store (server_run env evs (boot us)))) \<le> m
           \<and> m < length (generations (store (server_run env (evs @ [e]) (boot us)))) \<longrightarrow>
         status (generations (store (server_run env (evs @ [e]) (boot us))) ! m) = Processing)
   \<and> (\<forall>g \<in> set (generations (store (server_run env evs (boot us)))).
         status g = Processing \<or> status g = Completed \<or> status g = Failed)"
proof -
  have known: "st = Processing \<or> st = Completed \<or> st = Failed" for st
    by (cases st) simp_all
  have ok: "pending_ok (server_run env evs (boot us))"
    by (rule server_run_pending_ok)
  from step_keeps [OF ok, where env = env and e = e] known show ?thesis
    unfolding server_run_snoc by force
qed

theorem terminal_status_is_final_witness:
  "map status (generations (store (server_run sample_env two_jobs (boot [alice]))))
     = [Completed, Failed]
   \<and> generations (store (server_run sample_env (two_jobs @ [third_job]) (boot [alice]))) ! 0
       = generations (store (server_run sample_env two_jobs (boot [alice]))) ! 0
   \<and> generations (store (server_run sample_env (two_jobs @ [third_job]) (boot [alice]))) ! 1
       = generations (store (server_run sample_env two_jobs (boot [alice]))) ! 1
   \<and> status (generations (store (server_run sample_env (two_jobs @ [third_job]) (boot [alice]))) ! 2)
       = Processing"
proof -
  define before where "before = generations (store (server_run sample_env two_jobs (boot [alice])))"
  define after where
    "after = generations (store (server_run sample_env (two_jobs @ [third_job]) (boot [alice])))"
  have st: "map status before = [Completed, Failed]"
    unfolding before_def by (simp add: two_jobs_store)
  have len: "length before = 2"
    unfolding before_def by (simp add: two_jobs_store)
  have s0: "status (before ! 0) \<noteq> Processing"
    unfolding before_def by (simp add: two_jobs_store)
  have s1: "status (before ! 1) \<noteq> Processing"
    unfolding before_def by (simp add: two_jobs_store)
  have len': "length after = 3"
    unfolding after_def by (rule three_jobs_length)
  note final = terminal_status_is_final [of sample_env two_jobs "[alice]" third_job,
      folded before_def after_def]
  from final s0 len have a: "after ! 0 = before ! 0" by simp
  from final s1 len have b: "after ! 1 = before ! 1" by simp
  from final len len' have c: "status (after ! 2) = Processing" by simp
  from st a b c show ?thesis unfolding before_def after_def by (intro conjI)
qed

end
